theory Spec2Isabelle
  imports Complex_Main
begin

section \<open>The geometry library as the application uses it\<close>

text \<open>
  The application is a thin layer over three.js. The part of three.js it calls on a
  geometry is modelled here by what the calls do to the \<^verbatim>\<open>position\<close> attribute and to the
  cached bounding box. Coordinates are real numbers: rounding to 32-bit floats and the
  IEEE special values of a coordinate are outside this model. Normals, materials, camera
  and renderer never feed back into vertex positions and are left out.
\<close>

datatype axis = AxisX | AxisY | AxisZ

datatype vector3 = Vector3 (vx: real) (vy: real) (vz: real)

fun coord :: "axis \<Rightarrow> vector3 \<Rightarrow> real" where
  "coord AxisX v = vx v"
| "coord AxisY v = vy v"
| "coord AxisZ v = vz v"

text \<open>
  \<^verbatim>\<open>Matrix4\<close>, with its sixteen entries in the order of \<^verbatim>\<open>Matrix4.set\<close> (row by row).
\<close>

datatype matrix4 =
  Matrix4 real real real real  real real real real  real real real real  real real real real

definition makeScale :: "real \<Rightarrow> real \<Rightarrow> real \<Rightarrow> matrix4" where
  "makeScale sx sy sz = Matrix4 sx 0 0 0  0 sy 0 0  0 0 sz 0  0 0 0 1"

definition makeTranslation :: "real \<Rightarrow> real \<Rightarrow> real \<Rightarrow> matrix4" where
  "makeTranslation tx ty tz = Matrix4 1 0 0 tx  0 1 0 ty  0 0 1 tz  0 0 0 1"

text \<open>
  \<^verbatim>\<open>Vector3.applyMatrix4\<close>: the affine image, divided by the homogeneous coordinate. Every
  matrix the application builds has last row \<open>0 0 0 1\<close>, so the divisor is 1.
\<close>

fun Vector3_applyMatrix4 :: "matrix4 \<Rightarrow> vector3 \<Rightarrow> vector3" where
  "Vector3_applyMatrix4
     (Matrix4 n11 n12 n13 n14  n21 n22 n23 n24  n31 n32 n33 n34  n41 n42 n43 n44)
     (Vector3 x y z) =
     (let w = 1 / (n41 * x + n42 * y + n43 * z + n44) in
      Vector3 ((n11 * x + n12 * y + n13 * z + n14) * w)
              ((n21 * x + n22 * y + n23 * z + n24) * w)
              ((n31 * x + n32 * y + n33 * z + n34) * w))"

text \<open>
  \<^verbatim>\<open>Box3\<close>. A fresh or emptied box has \<open>min = +\<infinity>\<close> and \<open>max = -\<infinity>\<close> on every axis;
  \<open>EmptyBox\<close> stands for that box. \<^verbatim>\<open>expandByPoint\<close> takes the componentwise minimum and
  maximum, which on the empty box gives the point itself.
\<close>

datatype box3 = EmptyBox | Box3 (bmin: vector3) (bmax: vector3)

fun expandByPoint :: "box3 \<Rightarrow> vector3 \<Rightarrow> box3" where
  "expandByPoint EmptyBox p = Box3 p p"
| "expandByPoint (Box3 mn mx) p =
     Box3 (Vector3 (min (vx mn) (vx p)) (min (vy mn) (vy p)) (min (vz mn) (vz p)))
          (Vector3 (max (vx mx) (vx p)) (max (vy mx) (vy p)) (max (vz mx) (vz p)))"

definition setFromBufferAttribute :: "vector3 list \<Rightarrow> box3" where
  "setFromBufferAttribute ps = foldl expandByPoint EmptyBox ps"

text \<open>
  The number \<^verbatim>\<open>box.max.a - box.min.a\<close>. On the empty box it is \<open>-\<infinity> - +\<infinity> = -\<infinity>\<close>,
  the one value outside the reals that the application can compute from a geometry with
  real coordinates.
\<close>

datatype extent = NegInfinity | Finite real

fun axisLength :: "box3 \<Rightarrow> axis \<Rightarrow> extent" where
  "axisLength EmptyBox a = NegInfinity"
| "axisLength (Box3 mn mx) a = Finite (coord a mx - coord a mn)"

text \<open>The comparisons \<^verbatim>\<open>cur > 0\<close> and \<^verbatim>\<open>cur <= 0\<close> of the source.\<close>

fun positive :: "extent \<Rightarrow> bool" where
  "positive NegInfinity = False"
| "positive (Finite c) = (0 < c)"

fun nonpositive :: "extent \<Rightarrow> bool" where
  "nonpositive NegInfinity = True"
| "nonpositive (Finite c) = (c \<le> 0)"

text \<open>
  \<^verbatim>\<open>BufferGeometry\<close>: the position attribute (absent, or one point per vertex) and the
  cached bounding box (\<^verbatim>\<open>null\<close> until computed).
\<close>

record geometry =
  position :: "vector3 list option"
  boundingBox :: "box3 option"

text \<open>
  \<^verbatim>\<open>clone\<close> makes a deep copy. Values are not shared in this model, and the source
  never changes a geometry that is reachable from two places (every change is applied
  to a copy made just before), so the copy is the value itself.
\<close>

definition clone :: "geometry \<Rightarrow> geometry" where
  "clone g = g"

definition computeBoundingBox :: "geometry \<Rightarrow> geometry" where
  "computeBoundingBox g =
     g\<lparr>boundingBox :=
         Some (case position g of None \<Rightarrow> EmptyBox | Some ps \<Rightarrow> setFromBufferAttribute ps)\<rparr>"

text \<open>
  \<^verbatim>\<open>BufferGeometry.applyMatrix4\<close> transforms every position and, when a bounding box is
  cached, computes it again.
\<close>

definition applyMatrix4 :: "matrix4 \<Rightarrow> geometry \<Rightarrow> geometry" where
  "applyMatrix4 m g =
     (let g' = g\<lparr>position := map_option (map (Vector3_applyMatrix4 m)) (position g)\<rparr>
      in if boundingBox g' = None then g' else computeBoundingBox g')"

definition translate :: "real \<Rightarrow> real \<Rightarrow> real \<Rightarrow> geometry \<Rightarrow> geometry" where
  "translate tx ty tz g = applyMatrix4 (makeTranslation tx ty tz) g"

text \<open>\<^verbatim>\<open>computeVertexNormals\<close> writes the normal attribute only.\<close>

definition computeVertexNormals :: "geometry \<Rightarrow> geometry" where
  "computeVertexNormals g = g"

text \<open>
  \<^verbatim>\<open>BufferGeometry.center\<close>: compute the box, move its centre to the origin. The centre
  of the empty box is the origin (\<^verbatim>\<open>Box3.getCenter\<close>).
\<close>

definition center :: "geometry \<Rightarrow> geometry" where
  "center g =
     (let g1 = computeBoundingBox g in
      case boundingBox g1 of
        Some (Box3 mn mx) \<Rightarrow>
          translate (- ((vx mn + vx mx) * 0.5)) (- ((vy mn + vy mx) * 0.5))
            (- ((vz mn + vz mx) * 0.5)) g1
      | _ \<Rightarrow> translate 0 0 0 g1)"

section \<open>What the browser keeps of the application's effects\<close>

text \<open>
  The encoder (\<^verbatim>\<open>STLExporter\<close>) and the download mechanism are external. A download is
  recorded by its file name, its content type and the mesh geometry handed to the
  encoder.
\<close>

record download =
  filename :: string
  mimeType :: string
  content :: geometry

record browser =
  console :: "string list"
  downloads :: "download list"

text \<open>The outcome of fetching and decoding the fixed asset: an error, or the geometry.\<close>

datatype fetched = Failed string | Parsed geometry

text \<open>Decimal digits of a number, as a template literal prints \<^verbatim>\<open>Date.now()\<close>.\<close>

fun decimal :: "nat \<Rightarrow> string" where
  "decimal n =
     (if n < 10 then [char_of (48 + n)]
      else decimal (n div 10) @ [char_of (48 + n mod 10)])"

text \<open>
  \<^verbatim>\<open>fitCameraToObject\<close> moves the camera only; measuring the mesh with
  \<^verbatim>\<open>Box3.setFromObject\<close> fills the geometry's bounding box when it is still \<^verbatim>\<open>null\<close>.
\<close>

definition fitCameraToObject :: "geometry \<Rightarrow> geometry" where
  "fitCameraToObject g = (if boundingBox g = None then computeBoundingBox g else g)"

section \<open>The single-page variant (the module in the second part of App.tsx)\<close>

text \<open>
  The module variables \<^verbatim>\<open>mesh\<close> and \<^verbatim>\<open>baseGeometry\<close>; a mesh is modelled by its geometry.
  The text outputs of the page are not kept.
\<close>

record main_state = browser +
  mesh :: "geometry option"
  baseGeometry :: "geometry option"

definition DEPTH_AXIS :: axis where
  "DEPTH_AXIS = AxisZ"

text \<open>\<^verbatim>\<open>g.boundingBox!\<close> is read right after \<^verbatim>\<open>computeBoundingBox\<close>, which always sets it.\<close>

definition computeAxisLengths :: "geometry \<Rightarrow> axis \<Rightarrow> extent" where
  "computeAxisLengths geom a =
     (let g = computeBoundingBox (clone geom);
          bb = the (boundingBox g)
      in axisLength bb a)"

definition getScaleForTargetLength :: "geometry \<Rightarrow> axis \<Rightarrow> real \<Rightarrow> real" where
  "getScaleForTargetLength geom a target =
     (case computeAxisLengths geom a of
        Finite cur \<Rightarrow> (if cur > 0 then target / cur else 1)
      | NegInfinity \<Rightarrow> 1)"

definition bakeScaleAlongAxis :: "axis \<Rightarrow> real \<Rightarrow> main_state \<Rightarrow> main_state" where
  "bakeScaleAlongAxis a scale st =
     (case (mesh st, baseGeometry st) of
        (Some m, Some base) \<Rightarrow>
          (let geo = clone base;
               sx = (if a = AxisX then scale else 1);
               sy = (if a = AxisY then scale else 1);
               sz = (if a = AxisZ then scale else 1);
               mat = makeScale sx sy sz;
               geo = computeBoundingBox (computeVertexNormals (applyMatrix4 mat geo))
           in st\<lparr>mesh := Some (fitCameraToObject geo)\<rparr>)
      | _ \<Rightarrow> st)"

text \<open>
  \<^verbatim>\<open>loadSTLFromArrayBuffer\<close>, from the decoded geometry on. The centre of an empty box is
  not a number, and a geometry with an empty box has no vertex for the translation to
  move.
\<close>

definition loadSTLFromArrayBuffer :: "geometry \<Rightarrow> main_state \<Rightarrow> main_state" where
  "loadSTLFromArrayBuffer parsed st =
     (let geo = computeBoundingBox (computeVertexNormals parsed);
          geo = (case boundingBox geo of
                   Some (Box3 mn mx) \<Rightarrow>
                     translate (- ((vx mn + vx mx) * 0.5)) (- ((vy mn + vy mx) * 0.5))
                       (- ((vz mn + vz mx) * 0.5)) geo
                 | _ \<Rightarrow> geo)
      in st\<lparr>mesh := Some (fitCameraToObject geo), baseGeometry := Some (clone geo)\<rparr>)"

definition autoLoadProvidedSTL :: "fetched \<Rightarrow> main_state \<Rightarrow> main_state" where
  "autoLoadProvidedSTL r st =
     (case r of
        Parsed g \<Rightarrow> loadSTLFromArrayBuffer g st
      | Failed err \<Rightarrow> st\<lparr>console := console st @ [err]\<rparr>)"

text \<open>The \<^verbatim>\<open>input\<close> listener of the depth slider; \<open>target\<close> is \<^verbatim>\<open>Number(depthRange.value)\<close>.\<close>

definition depthRangeInput :: "real \<Rightarrow> main_state \<Rightarrow> main_state" where
  "depthRangeInput target st =
     (case mesh st of
        None \<Rightarrow> st
      | Some m \<Rightarrow>
          (let scale = getScaleForTargetLength
                 (case baseGeometry st of Some b \<Rightarrow> b | None \<Rightarrow> m) DEPTH_AXIS target
           in bakeScaleAlongAxis DEPTH_AXIS scale st))"

definition resetScaleClick :: "main_state \<Rightarrow> main_state" where
  "resetScaleClick st =
     (case (mesh st, baseGeometry st) of
        (Some m, Some base) \<Rightarrow> st\<lparr>mesh := Some (fitCameraToObject (clone base))\<rparr>
      | _ \<Rightarrow> st)"

definition exportCurrentMeshAsSTL :: "nat \<Rightarrow> main_state \<Rightarrow> main_state" where
  "exportCurrentMeshAsSTL now st =
     (case mesh st of
        None \<Rightarrow> st
      | Some m \<Rightarrow>
          st\<lparr>downloads := downloads st @
            [\<lparr>filename = ''auriga-simracing-cable-guide-'' @ decimal now @ ''.stl'',
              mimeType = ''application/sla'', content = m\<rparr>]\<rparr>)"

datatype main_event = AutoLoad fetched | DepthInput real | ResetScale | ExportSTL nat

fun main_step :: "main_state \<Rightarrow> main_event \<Rightarrow> main_state" where
  "main_step st (AutoLoad r) = autoLoadProvidedSTL r st"
| "main_step st (DepthInput target) = depthRangeInput target st"
| "main_step st ResetScale = resetScaleClick st"
| "main_step st (ExportSTL now) = exportCurrentMeshAsSTL now st"

definition main_start :: main_state where
  "main_start = \<lparr>console = [], downloads = [], mesh = None, baseGeometry = None\<rparr>"

definition main_run :: "main_event list \<Rightarrow> main_state" where
  "main_run evs = foldl main_step main_start evs"

section \<open>The React variant (App.tsx and ThreeScene.tsx)\<close>

text \<open>\<^verbatim>\<open>sceneRef.current\<close>, when it is set: the mesh (by its geometry) and the base geometry.\<close>

record scene =
  scene_mesh :: "geometry option"
  scene_baseGeometry :: "geometry option"

record app_state = browser +
  depth :: real
  sceneRef :: "scene option"

text \<open>
  The body of the effect that depends on \<^verbatim>\<open>parameters.depth\<close>, as a function of the
  target depth and \<^verbatim>\<open>sceneRef.current\<close>.
\<close>

definition depthEffect :: "real \<Rightarrow> scene option \<Rightarrow> scene option" where
  "depthEffect targetDepth cur =
     (case cur of
        None \<Rightarrow> cur
      | Some sc \<Rightarrow>
          (case (scene_mesh sc, scene_baseGeometry sc) of
             (Some m, Some base) \<Rightarrow>
               (case position base of
                  None \<Rightarrow> cur
                | Some positionAttribute \<Rightarrow>
                    (case axisLength (setFromBufferAttribute positionAttribute) AxisZ of
                       NegInfinity \<Rightarrow> cur
                     | Finite currentDepth \<Rightarrow>
                         (if currentDepth \<le> 0 then cur
                          else
                            (let scale = targetDepth / currentDepth;
                                 newGeometry = clone base;
                                 scaleMatrix = makeScale 1 1 scale;
                                 newGeometry = computeBoundingBox (computeVertexNormals
                                   (applyMatrix4 scaleMatrix newGeometry))
                             in Some (sc\<lparr>scene_mesh := Some newGeometry\<rparr>)))))
           | _ \<Rightarrow> cur))"

text \<open>
  \<^verbatim>\<open>setParameters\<close>: the component renders again, and the effect runs when the depth
  differs from the one of the previous render.
\<close>

definition setParameters :: "real \<Rightarrow> app_state \<Rightarrow> app_state" where
  "setParameters d st =
     (if d = depth st then st
      else st\<lparr>depth := d, sceneRef := depthEffect d (sceneRef st)\<rparr>)"

definition updateParameter :: "real \<Rightarrow> app_state \<Rightarrow> app_state" where
  "updateParameter v st = setParameters v st"

text \<open>
  \<^verbatim>\<open>Number(e.target.value)\<close>: not a number, or a number. The infinities, which a
  number input does not produce for the values a user can type within the domain, are
  left out.
\<close>

datatype jsnumber = NaN | Number real

definition inputOnChange :: "jsnumber \<Rightarrow> app_state \<Rightarrow> app_state" where
  "inputOnChange v st = (case v of NaN \<Rightarrow> st | Number x \<Rightarrow> updateParameter x st)"

definition inputOnBlur :: "jsnumber \<Rightarrow> app_state \<Rightarrow> app_state" where
  "inputOnBlur v st =
     (case v of
        NaN \<Rightarrow> st
      | Number x \<Rightarrow>
          (if x < 10 then updateParameter 10 st
           else if x > 300 then updateParameter 300 st
           else st))"

definition sliderOnValueChange :: "real \<Rightarrow> app_state \<Rightarrow> app_state" where
  "sliderOnValueChange v st = updateParameter v st"

definition resetOnClick :: "app_state \<Rightarrow> app_state" where
  "resetOnClick st = setParameters 10 st"

definition exportSTL :: "app_state \<Rightarrow> app_state" where
  "exportSTL st =
     (case (case sceneRef st of None \<Rightarrow> None | Some sc \<Rightarrow> scene_mesh sc) of
        None \<Rightarrow> st\<lparr>console := console st @ [''No mesh to export'']\<rparr>
      | Some m \<Rightarrow>
          st\<lparr>downloads := downloads st @
            [\<lparr>filename = ''auriga_cable_guide.stl'', mimeType = ''application/sla'',
              content = m\<rparr>]\<rparr>)"

definition handleExportSTL :: "app_state \<Rightarrow> app_state" where
  "handleExportSTL st = exportSTL st"

definition loadSTL :: "fetched \<Rightarrow> app_state \<Rightarrow> app_state" where
  "loadSTL r st =
     (case sceneRef st of
        None \<Rightarrow> st
      | Some sc \<Rightarrow>
          (case r of
             Failed err \<Rightarrow> st\<lparr>console := console st @ [''Error loading STL: '' @ err]\<rparr>
           | Parsed parsed \<Rightarrow>
               (let g = center (computeBoundingBox (computeVertexNormals parsed))
                in st\<lparr>sceneRef := Some (sc\<lparr>scene_mesh := Some (fitCameraToObject g),
                                                scene_baseGeometry := Some (clone g)\<rparr>)\<rparr>)))"

text \<open>
  After mounting (the canvas exists): the default depth, a scene without mesh, and the
  asset still being fetched. The depth effect has run once, with no mesh to act on.
\<close>

definition app_start :: app_state where
  "app_start =
     \<lparr>console = [], downloads = [], depth = 10,
      sceneRef = Some \<lparr>scene_mesh = None, scene_baseGeometry = None\<rparr>\<rparr>"

datatype app_event =
  Loaded fetched | InputChange jsnumber | InputBlur jsnumber | SliderChange real
  | ResetClick | DownloadClick

fun app_step :: "app_state \<Rightarrow> app_event \<Rightarrow> app_state" where
  "app_step st (Loaded r) = loadSTL r st"
| "app_step st (InputChange v) = inputOnChange v st"
| "app_step st (InputBlur v) = inputOnBlur v st"
| "app_step st (SliderChange v) = sliderOnValueChange v st"
| "app_step st ResetClick = resetOnClick st"
| "app_step st DownloadClick = handleExportSTL st"

definition app_run :: "app_event list \<Rightarrow> app_state" where
  "app_run evs = foldl app_step app_start evs"

section \<open>The variant with depth and height (the ThreeScene component of part_001)\<close>

text \<open>
  The loop over the position array, three numbers per vertex: a vertex above the
  threshold and in the outer part of the X range is moved up.
\<close>

definition extrude :: "real \<Rightarrow> real \<Rightarrow> real \<Rightarrow> real \<Rightarrow> vector3 list \<Rightarrow> vector3 list" where
  "extrude yThreshold centerX xRange extrusionHeight positions =
     map (\<lambda>p.
           (let x = vx p;
                y = vy p;
                isAboveThreshold = (y > yThreshold);
                distanceFromCenter = \<bar>x - centerX\<bar>;
                isAtExtremity = (distanceFromCenter > xRange * 0.25)
            in if isAboveThreshold \<and> isAtExtremity
               then Vector3 (vx p) (vy p + extrusionHeight) (vz p)
               else p))
         positions"

text \<open>
  The block guarded by \<^verbatim>\<open>heightScale !== 1\<close>. It runs on a copy of a base geometry whose
  position attribute exists and whose extents are positive, so the box is not empty; on
  an empty box the extrusion height would not be a number and nothing would move. The
  positions are written in place: the cached box is the one computed before the loop.
\<close>

definition selectiveHeightScaling :: "real \<Rightarrow> geometry \<Rightarrow> geometry" where
  "selectiveHeightScaling heightScale newGeometry0 =
     (let newGeometry = computeBoundingBox newGeometry0 in
      case (position newGeometry, boundingBox newGeometry) of
        (Some positions, Some (Box3 mn mx)) \<Rightarrow>
          (let yRange = vy mx - vy mn;
               yThreshold = vy mn + yRange * 0.55;
               extrusionHeight = (heightScale - 1) * (vy mx - yThreshold)
           in if extrusionHeight > 0
              then (let xRange = vx mx - vx mn;
                        centerX = (vx mn + vx mx) / 2
                    in newGeometry\<lparr>position :=
                         Some (extrude yThreshold centerX xRange extrusionHeight positions)\<rparr>)
              else newGeometry)
      | _ \<Rightarrow> newGeometry)"

definition depthHeightEffect :: "real \<Rightarrow> real \<Rightarrow> scene option \<Rightarrow> scene option" where
  "depthHeightEffect targetDepth targetHeight cur =
     (case cur of
        None \<Rightarrow> cur
      | Some sc \<Rightarrow>
          (case (scene_mesh sc, scene_baseGeometry sc) of
             (Some m, Some base) \<Rightarrow>
               (case position base of
                  None \<Rightarrow> cur
                | Some positionAttribute \<Rightarrow>
                    (let bbox = setFromBufferAttribute positionAttribute in
                     case (axisLength bbox AxisZ, axisLength bbox AxisY) of
                       (Finite currentDepth, Finite currentHeight) \<Rightarrow>
                         (if currentDepth \<le> 0 \<or> currentHeight \<le> 0 then cur
                          else
                            (let depthScale = targetDepth / currentDepth;
                                 heightScale = targetHeight / currentHeight;
                                 newGeometry = clone base;
                                 newGeometry =
                                   (if depthScale \<noteq> 1
                                    then applyMatrix4 (makeScale 1 1 depthScale) newGeometry
                                    else newGeometry);
                                 newGeometry =
                                   (if heightScale \<noteq> 1
                                    then selectiveHeightScaling heightScale newGeometry
                                    else newGeometry);
                                 newGeometry =
                                   computeBoundingBox (computeVertexNormals newGeometry)
                             in Some (sc\<lparr>scene_mesh := Some newGeometry\<rparr>)))
                     | _ \<Rightarrow> cur))
           | _ \<Rightarrow> cur))"

section \<open>Measures and sample meshes used in the statements\<close>

text \<open>The number of vertices of a geometry (\<^verbatim>\<open>position.count\<close>; three per triangle).\<close>

definition vertexCount :: "geometry \<Rightarrow> nat" where
  "vertexCount g = (case position g of None \<Rightarrow> 0 | Some ps \<Rightarrow> length ps)"

text \<open>
  The length along an axis of the geometry on display, measured as the source measures
  it (\<^verbatim>\<open>computeAxisLengths\<close>): for the single-page variant, and for \<^verbatim>\<open>sceneRef.current\<close>
  of the React variants. \<open>None\<close> when no mesh is on display.
\<close>

definition meshLength :: "main_state \<Rightarrow> axis \<Rightarrow> extent option" where
  "meshLength st a = map_option (\<lambda>g. computeAxisLengths g a) (mesh st)"

definition sceneLength :: "scene option \<Rightarrow> axis \<Rightarrow> extent option" where
  "sceneLength cur a =
     (case cur of
        None \<Rightarrow> None
      | Some sc \<Rightarrow> map_option (\<lambda>g. computeAxisLengths g a) (scene_mesh sc))"

text \<open>
  What holds of the two module variables after any sequence of events: both are unset or
  both are set; the base geometry's cached box is the box of its vertices; the mesh has
  as many vertices as the base geometry; and when the base extent along the depth axis
  is not positive, the mesh geometry is the base geometry.
\<close>

definition main_invariant :: "main_state \<Rightarrow> bool" where
  "main_invariant st =
     (case (mesh st, baseGeometry st) of
        (None, None) \<Rightarrow> True
      | (Some g, Some b) \<Rightarrow>
          boundingBox b = boundingBox (computeBoundingBox b)
          \<and> vertexCount g = vertexCount b
          \<and> (nonpositive (computeAxisLengths b DEPTH_AXIS) \<longrightarrow> g = b)
      | _ \<Rightarrow> False)"

text \<open>The same for \<^verbatim>\<open>sceneRef.current\<close> of the React variant.\<close>

definition scene_invariant :: "scene option \<Rightarrow> bool" where
  "scene_invariant cur =
     (case cur of
        None \<Rightarrow> True
      | Some sc \<Rightarrow>
          (case (scene_mesh sc, scene_baseGeometry sc) of
             (None, None) \<Rightarrow> True
           | (Some g, Some b) \<Rightarrow> vertexCount g = vertexCount b
           | _ \<Rightarrow> False))"

text \<open>The Y coordinates of the vertices of the mesh on display, in buffer order.\<close>

definition meshYs :: "scene option \<Rightarrow> real list option" where
  "meshYs cur =
     (case cur of
        None \<Rightarrow> None
      | Some sc \<Rightarrow>
          (case scene_mesh sc of
             None \<Rightarrow> None
           | Some g \<Rightarrow> map_option (map vy) (position g)))"

text \<open>One triangle with extents 10, 5 and 50, as the decoder returns it.\<close>

definition triangle :: geometry where
  "triangle =
     \<lparr>position = Some [Vector3 0 0 (-25), Vector3 10 0 25, Vector3 0 5 0],
      boundingBox = None\<rparr>"

text \<open>One triangle in the plane \<open>z = 0\<close>: its extent along Z is 0.\<close>

definition flat :: geometry where
  "flat =
     \<lparr>position = Some [Vector3 0 0 0, Vector3 1 0 0, Vector3 0 1 0],
      boundingBox = None\<rparr>"

text \<open>The entry of the diagonal of \<^verbatim>\<open>makeScale sx sy sz\<close> that acts on an axis.\<close>

definition factorOn :: "axis \<Rightarrow> real \<Rightarrow> real \<Rightarrow> real \<Rightarrow> real" where
  "factorOn a sx sy sz = (case a of AxisX \<Rightarrow> sx | AxisY \<Rightarrow> sy | AxisZ \<Rightarrow> sz)"

section \<open>Properties of the geometry operations\<close>

subsection \<open>Transforming one point\<close>

lemma Vector3_applyMatrix4_makeScale:
  "Vector3_applyMatrix4 (makeScale sx sy sz) v = Vector3 (sx * vx v) (sy * vy v) (sz * vz v)"
  by (cases v) (simp add: makeScale_def)

lemma Vector3_applyMatrix4_makeTranslation:
  "Vector3_applyMatrix4 (makeTranslation tx ty tz) v = Vector3 (vx v + tx) (vy v + ty) (vz v + tz)"
  by (cases v) (simp add: makeTranslation_def)

lemma Vector3_applyMatrix4_identity: "Vector3_applyMatrix4 (makeScale 1 1 1) v = v"
  by (simp add: Vector3_applyMatrix4_makeScale)

lemma map_applyMatrix4_identity: "map (Vector3_applyMatrix4 (makeScale 1 1 1)) ps = ps"
  by (induction ps) (simp_all add: Vector3_applyMatrix4_identity)

lemma coord_makeScale:
  "coord a (Vector3_applyMatrix4 (makeScale sx sy sz) v) = factorOn a sx sy sz * coord a v"
  by (cases a) (simp_all add: Vector3_applyMatrix4_makeScale factorOn_def)

subsection \<open>The box of a vertex list\<close>

lemma setFromBufferAttribute_Nil: "setFromBufferAttribute [] = EmptyBox"
  by (simp add: setFromBufferAttribute_def)

lemma setFromBufferAttribute_snoc:
  "setFromBufferAttribute (ps @ [p]) = expandByPoint (setFromBufferAttribute ps) p"
  by (simp add: setFromBufferAttribute_def)

lemma setFromBufferAttribute_Min_Max:
  assumes "ps \<noteq> []"
  shows "setFromBufferAttribute ps =
    Box3 (Vector3 (Min (vx ` set ps)) (Min (vy ` set ps)) (Min (vz ` set ps)))
         (Vector3 (Max (vx ` set ps)) (Max (vy ` set ps)) (Max (vz ` set ps)))"
  using assms
proof (induction ps rule: rev_nonempty_induct)
  case (single p)
  then show ?case by (simp add: setFromBufferAttribute_def)
next
  case (snoc p ps)
  then show ?case
    by (simp add: setFromBufferAttribute_snoc min.commute max.commute)
qed

lemma axisLength_setFromBufferAttribute:
  assumes "ps \<noteq> []"
  shows "axisLength (setFromBufferAttribute ps) a =
    Finite (Max (coord a ` set ps) - Min (coord a ` set ps))"
proof -
  have "coord a = (case a of AxisX \<Rightarrow> vx | AxisY \<Rightarrow> vy | AxisZ \<Rightarrow> vz)"
    by (cases a) auto
  then show ?thesis
    using assms by (cases a) (simp_all add: setFromBufferAttribute_Min_Max)
qed

lemma Max_times:
  fixes S :: "real set"
  assumes "finite S" "S \<noteq> {}" "0 \<le> k"
  shows "Max ((\<lambda>c. k * c) ` S) = k * Max S"
proof -
  have "mono (\<lambda>c. k * c)"
    using assms(3) by (simp add: mono_def mult_left_mono)
  then show ?thesis
    using assms(1,2) by (simp add: mono_Max_commute)
qed

lemma Min_times:
  fixes S :: "real set"
  assumes "finite S" "S \<noteq> {}" "0 \<le> k"
  shows "Min ((\<lambda>c. k * c) ` S) = k * Min S"
proof -
  have "mono (\<lambda>c. k * c)"
    using assms(3) by (simp add: mono_def mult_left_mono)
  then show ?thesis
    using assms(1,2) by (simp add: mono_Min_commute)
qed

lemma axisLength_scaled:
  assumes "ps \<noteq> []" and "0 \<le> factorOn a sx sy sz"
  shows "axisLength (setFromBufferAttribute (map (Vector3_applyMatrix4 (makeScale sx sy sz)) ps)) a =
    Finite (factorOn a sx sy sz * (Max (coord a ` set ps) - Min (coord a ` set ps)))"
proof -
  let ?k = "factorOn a sx sy sz"
  let ?S = "coord a ` set ps"
  let ?qs = "map (Vector3_applyMatrix4 (makeScale sx sy sz)) ps"
  have img: "coord a ` set ?qs = (\<lambda>c. ?k * c) ` ?S"
    by (simp add: image_image coord_makeScale)
  have fin: "finite ?S" and ne: "?S \<noteq> {}"
    using assms(1) by simp_all
  have "?qs \<noteq> []"
    using assms(1) by simp
  then have "axisLength (setFromBufferAttribute ?qs) a =
      Finite (Max (coord a ` set ?qs) - Min (coord a ` set ?qs))"
    by (rule axisLength_setFromBufferAttribute)
  also have "\<dots> = Finite (?k * Max ?S - ?k * Min ?S)"
    unfolding img Max_times [OF fin ne assms(2)] Min_times [OF fin ne assms(2)] ..
  finally show ?thesis
    by (simp add: right_diff_distrib)
qed

lemma axisLength_scaled_one:
  assumes "factorOn a sx sy sz = 1"
  shows "axisLength (setFromBufferAttribute (map (Vector3_applyMatrix4 (makeScale sx sy sz)) ps)) a =
    axisLength (setFromBufferAttribute ps) a"
proof (cases "ps = []")
  case True
  then show ?thesis by simp
next
  case False
  then show ?thesis
    using assms axisLength_scaled [of ps a sx sy sz]
    by (simp add: axisLength_setFromBufferAttribute)
qed

subsection \<open>Measuring a geometry\<close>

lemma computeAxisLengths_position:
  "computeAxisLengths g a =
    axisLength (case position g of None \<Rightarrow> EmptyBox | Some ps \<Rightarrow> setFromBufferAttribute ps) a"
  by (simp add: computeAxisLengths_def computeBoundingBox_def clone_def)

lemma computeAxisLengths_Max_Min:
  assumes "position g = Some ps" "ps \<noteq> []"
  shows "computeAxisLengths g a = Finite (Max (coord a ` set ps) - Min (coord a ` set ps))"
  using assms by (simp add: computeAxisLengths_position axisLength_setFromBufferAttribute)

lemma computeAxisLengths_positive:
  assumes "positive (computeAxisLengths g a)"
  obtains ps where "position g = Some ps" "ps \<noteq> []"
    "computeAxisLengths g a = Finite (Max (coord a ` set ps) - Min (coord a ` set ps))"
    "0 < Max (coord a ` set ps) - Min (coord a ` set ps)"
proof (cases "position g")
  case None
  then show ?thesis
    using assms by (simp add: computeAxisLengths_position)
next
  case (Some ps)
  show ?thesis
  proof (cases "ps = []")
    case True
    then show ?thesis
      using assms Some by (simp add: computeAxisLengths_position setFromBufferAttribute_Nil)
  next
    case False
    then show ?thesis
      using assms Some that [of ps] by (simp add: computeAxisLengths_Max_Min)
  qed
qed

subsection \<open>What the scale operations install\<close>

lemma computeAxisLengths_cong:
  "position g = position g' \<Longrightarrow> computeAxisLengths g a = computeAxisLengths g' a"
  by (simp add: computeAxisLengths_position)

lemma position_computeBoundingBox [simp]: "position (computeBoundingBox g) = position g"
  by (simp add: computeBoundingBox_def)

lemma position_fitCameraToObject [simp]: "position (fitCameraToObject g) = position g"
  by (simp add: fitCameraToObject_def)

lemma position_applyMatrix4 [simp]:
  "position (applyMatrix4 m g) = map_option (map (Vector3_applyMatrix4 m)) (position g)"
  by (simp add: applyMatrix4_def Let_def)

lemma position_clone [simp]: "position (clone g) = position g"
  by (simp add: clone_def)

lemma position_computeVertexNormals [simp]: "position (computeVertexNormals g) = position g"
  by (simp add: computeVertexNormals_def)

lemma mesh_bakeScaleAlongAxis:
  assumes "mesh st = Some m" "baseGeometry st = Some base"
  shows "\<exists>g. mesh (bakeScaleAlongAxis a s st) = Some g \<and>
    position g = map_option (map (Vector3_applyMatrix4
      (makeScale (if a = AxisX then s else 1) (if a = AxisY then s else 1)
         (if a = AxisZ then s else 1)))) (position base)"
  using assms by (simp add: bakeScaleAlongAxis_def Let_def)

lemma computeAxisLengths_scaled:
  assumes "position g = map_option (map (Vector3_applyMatrix4 (makeScale sx sy sz))) (position base)"
    and "computeAxisLengths base a = Finite c" and "0 \<le> factorOn a sx sy sz"
  shows "computeAxisLengths g a = Finite (factorOn a sx sy sz * c)"
proof (cases "position base")
  case None
  then show ?thesis
    using assms(2) by (simp add: computeAxisLengths_position)
next
  case (Some ps)
  then have ne: "ps \<noteq> []"
    using assms(2) by (auto simp: computeAxisLengths_position setFromBufferAttribute_Nil)
  have "Finite c = Finite (Max (coord a ` set ps) - Min (coord a ` set ps))"
    using assms(2) Some ne by (simp add: computeAxisLengths_Max_Min)
  then have c: "c = Max (coord a ` set ps) - Min (coord a ` set ps)"
    by simp
  have "computeAxisLengths g a =
      axisLength (setFromBufferAttribute (map (Vector3_applyMatrix4 (makeScale sx sy sz)) ps)) a"
    using assms(1) Some by (simp add: computeAxisLengths_position)
  then show ?thesis
    unfolding c using axisLength_scaled [OF ne assms(3)] by simp
qed

lemma computeAxisLengths_unscaled:
  assumes "position g = map_option (map (Vector3_applyMatrix4 (makeScale sx sy sz))) (position base)"
    and "factorOn a sx sy sz = 1"
  shows "computeAxisLengths g a = computeAxisLengths base a"
  using assms by (cases "position base") (simp_all add: computeAxisLengths_position axisLength_scaled_one)

lemma getScaleForTargetLength_positive:
  assumes "computeAxisLengths base a = Finite c" "0 < c"
  shows "getScaleForTargetLength base a T = T / c"
  using assms by (simp add: getScaleForTargetLength_def)

lemma getScaleForTargetLength_nonpositive:
  assumes "nonpositive (computeAxisLengths base a)"
  shows "getScaleForTargetLength base a T = 1"
  using assms by (cases "computeAxisLengths base a") (simp_all add: getScaleForTargetLength_def)

lemma bake_extent_target:
  assumes "mesh st = Some m" "baseGeometry st = Some base"
    and "positive (computeAxisLengths base a)" and "0 \<le> T"
  shows "map_option (\<lambda>g. computeAxisLengths g a)
      (mesh (bakeScaleAlongAxis a (getScaleForTargetLength base a T) st)) = Some (Finite T)"
proof -
  obtain c where c: "computeAxisLengths base a = Finite c" "0 < c"
    using assms(3) by (cases "computeAxisLengths base a") simp_all
  let ?s = "getScaleForTargetLength base a T"
  have s: "?s = T / c"
    using c by (rule getScaleForTargetLength_positive)
  obtain g where g: "mesh (bakeScaleAlongAxis a ?s st) = Some g"
    "position g = map_option (map (Vector3_applyMatrix4
      (makeScale (if a = AxisX then ?s else 1) (if a = AxisY then ?s else 1)
         (if a = AxisZ then ?s else 1)))) (position base)"
    using mesh_bakeScaleAlongAxis [OF assms(1,2)] by blast
  have f: "factorOn a (if a = AxisX then ?s else 1) (if a = AxisY then ?s else 1)
         (if a = AxisZ then ?s else 1) = T / c"
    using s by (cases a) (simp_all add: factorOn_def)
  have "0 \<le> T / c"
    using assms(4) c(2) by simp
  then have "computeAxisLengths g a = Finite (T / c * c)"
    using computeAxisLengths_scaled [OF g(2) c(1)] f by simp
  then show ?thesis
    using g(1) c(2) by simp
qed

lemma bake_extent_other:
  assumes "mesh st = Some m" "baseGeometry st = Some base" and "b \<noteq> a"
  shows "map_option (\<lambda>g. computeAxisLengths g b) (mesh (bakeScaleAlongAxis a s st)) =
    Some (computeAxisLengths base b)"
proof -
  obtain g where g: "mesh (bakeScaleAlongAxis a s st) = Some g"
    "position g = map_option (map (Vector3_applyMatrix4
      (makeScale (if a = AxisX then s else 1) (if a = AxisY then s else 1)
         (if a = AxisZ then s else 1)))) (position base)"
    using mesh_bakeScaleAlongAxis [OF assms(1,2)] by blast
  have f: "factorOn b (if a = AxisX then s else 1) (if a = AxisY then s else 1)
         (if a = AxisZ then s else 1) = 1"
    using assms(3) by (cases b) (auto simp: factorOn_def)
  show ?thesis
    using computeAxisLengths_unscaled [OF g(2) f] g(1) by simp
qed

lemma depthRangeInput_bake:
  assumes "mesh st = Some m" "baseGeometry st = Some base"
  shows "depthRangeInput T st =
    bakeScaleAlongAxis DEPTH_AXIS (getScaleForTargetLength base DEPTH_AXIS T) st"
  using assms by (simp add: depthRangeInput_def)

lemma depthEffect_runs:
  assumes "scene_mesh sc = Some m" "scene_baseGeometry sc = Some base"
    and "computeAxisLengths base AxisZ = Finite c" "0 < c"
  shows "\<exists>g. depthEffect T (Some sc) = Some (sc\<lparr>scene_mesh := Some g\<rparr>) \<and>
    position g = map_option (map (Vector3_applyMatrix4 (makeScale 1 1 (T / c)))) (position base)"
proof (cases "position base")
  case None
  then show ?thesis
    using assms(3) by (simp add: computeAxisLengths_position)
next
  case (Some ps)
  then have "axisLength (setFromBufferAttribute ps) AxisZ = Finite c"
    using assms(3) by (simp add: computeAxisLengths_position)
  then have "depthEffect T (Some sc) =
      Some (sc\<lparr>scene_mesh := Some (computeBoundingBox (computeVertexNormals
        (applyMatrix4 (makeScale 1 1 (T / c)) (clone base))))\<rparr>)"
    using assms(1,2,4) Some by (simp add: depthEffect_def Let_def)
  moreover have "position (computeBoundingBox (computeVertexNormals
        (applyMatrix4 (makeScale 1 1 (T / c)) (clone base)))) =
      map_option (map (Vector3_applyMatrix4 (makeScale 1 1 (T / c)))) (position base)"
    by simp
  ultimately show ?thesis
    by blast
qed

lemma depthEffect_skips:
  assumes "scene_baseGeometry sc = Some base" "nonpositive (computeAxisLengths base AxisZ)"
  shows "depthEffect T (Some sc) = Some sc"
proof (cases "position base")
  case None
  then show ?thesis
    using assms(1) by (simp add: depthEffect_def split: option.splits)
next
  case (Some ps)
  then have "nonpositive (axisLength (setFromBufferAttribute ps) AxisZ)"
    using assms(2) by (simp add: computeAxisLengths_position)
  then show ?thesis
    using assms(1) Some
    by (cases "axisLength (setFromBufferAttribute ps) AxisZ")
      (simp_all add: depthEffect_def split: option.splits)
qed

lemma depthEffect_extent_target:
  assumes "scene_mesh sc = Some m" "scene_baseGeometry sc = Some base"
    and "positive (computeAxisLengths base AxisZ)" and "0 \<le> T"
  shows "map_option (\<lambda>sc'. map_option (\<lambda>g. computeAxisLengths g AxisZ) (scene_mesh sc'))
      (depthEffect T (Some sc)) = Some (Some (Finite T))"
proof -
  obtain c where c: "computeAxisLengths base AxisZ = Finite c" "0 < c"
    using assms(3) by (cases "computeAxisLengths base AxisZ") simp_all
  obtain g where g: "depthEffect T (Some sc) = Some (sc\<lparr>scene_mesh := Some g\<rparr>)"
    "position g = map_option (map (Vector3_applyMatrix4 (makeScale 1 1 (T / c)))) (position base)"
    using depthEffect_runs [OF assms(1,2) c] by blast
  have "0 \<le> factorOn AxisZ 1 1 (T / c)"
    using assms(4) c(2) by (simp add: factorOn_def)
  then have "computeAxisLengths g AxisZ = Finite (factorOn AxisZ 1 1 (T / c) * c)"
    by (rule computeAxisLengths_scaled [OF g(2) c(1)])
  then show ?thesis
    using g(1) c(2) by (simp add: factorOn_def)
qed

lemma depthEffect_extent_other:
  assumes "scene_mesh sc = Some m" "scene_baseGeometry sc = Some base"
    and "positive (computeAxisLengths base AxisZ)" and "b \<noteq> AxisZ"
  shows "map_option (\<lambda>sc'. map_option (\<lambda>g. computeAxisLengths g b) (scene_mesh sc'))
      (depthEffect T (Some sc)) = Some (Some (computeAxisLengths base b))"
proof -
  obtain c where c: "computeAxisLengths base AxisZ = Finite c" "0 < c"
    using assms(3) by (cases "computeAxisLengths base AxisZ") simp_all
  obtain g where g: "depthEffect T (Some sc) = Some (sc\<lparr>scene_mesh := Some g\<rparr>)"
    "position g = map_option (map (Vector3_applyMatrix4 (makeScale 1 1 (T / c)))) (position base)"
    using depthEffect_runs [OF assms(1,2) c] by blast
  have "factorOn b 1 1 (T / c) = 1"
    using assms(4) by (cases b) (simp_all add: factorOn_def)
  then have "computeAxisLengths g b = computeAxisLengths base b"
    by (rule computeAxisLengths_unscaled [OF g(2)])
  then show ?thesis
    using g(1) by simp
qed

lemma sceneLength_eq:
  "sceneLength cur a =
    Option.bind cur (\<lambda>sc. map_option (\<lambda>g. computeAxisLengths g a) (scene_mesh sc))"
  by (cases cur) (simp_all add: sceneLength_def)

lemma sceneLength_SomeI:
  assumes "map_option (\<lambda>sc'. map_option (\<lambda>g. computeAxisLengths g a) (scene_mesh sc')) cur =
    Some (Some e)"
  shows "sceneLength cur a = Some e"
  using assms by (cases cur) (simp_all add: sceneLength_def)

text \<open>
  C1. For every target length \<open>T\<close> between 10 and 300 and every base geometry whose
  extent along the scale axis is positive, the scale operation installs a geometry whose
  extent along that axis is \<open>T\<close>: for \<^verbatim>\<open>getScaleForTargetLength\<close> followed by
  \<^verbatim>\<open>bakeScaleAlongAxis\<close> on any axis, for the depth slider of the single-page variant and
  for the depth effect of the React variant (both on the Z axis). The arithmetic is exact
  here, so the extent is \<open>T\<close> itself.
\<close>

theorem scale_extent_equals_target:
  assumes "10 \<le> T" "T \<le> 300"
    and "positive (computeAxisLengths base a)"
    and "mesh st = Some m" "baseGeometry st = Some base"
    and "scene_mesh sc = Some m'" "scene_baseGeometry sc = Some base"
  shows "meshLength (bakeScaleAlongAxis a (getScaleForTargetLength base a T) st) a =
           Some (Finite T)
       \<and> (a = AxisZ \<longrightarrow> meshLength (depthRangeInput T st) AxisZ = Some (Finite T))
       \<and> (a = AxisZ \<longrightarrow> sceneLength (depthEffect T (Some sc)) AxisZ = Some (Finite T))"
proof -
  have T: "0 \<le> T"
    using assms(1) by simp
  have bake: "map_option (\<lambda>g. computeAxisLengths g a)
      (mesh (bakeScaleAlongAxis a (getScaleForTargetLength base a T) st)) = Some (Finite T)"
    using assms(4,5,3) T by (rule bake_extent_target)
  have slider: "map_option (\<lambda>g. computeAxisLengths g AxisZ) (mesh (depthRangeInput T st)) =
      Some (Finite T)" if "a = AxisZ"
    using bake that by (simp add: depthRangeInput_bake [OF assms(4,5)] DEPTH_AXIS_def)
  have effect: "map_option (\<lambda>sc'. map_option (\<lambda>g. computeAxisLengths g AxisZ) (scene_mesh sc'))
      (depthEffect T (Some sc)) = Some (Some (Finite T))" if "a = AxisZ"
    using depthEffect_extent_target [OF assms(6,7) _ T] assms(3) that by simp
  show ?thesis
    using bake slider sceneLength_SomeI [OF effect] by (simp add: meshLength_def)
qed

theorem scale_extent_equals_target_witness:
  "(10::real) \<le> 100 \<and> (100::real) \<le> 300
   \<and> positive (computeAxisLengths triangle AxisZ)
   \<and> computeAxisLengths triangle AxisZ = Finite 50
   \<and> getScaleForTargetLength triangle AxisZ 100 = 2
   \<and> meshLength (depthRangeInput 100
          (main_start\<lparr>mesh := Some triangle, baseGeometry := Some triangle\<rparr>)) AxisZ =
      Some (Finite 100)
   \<and> sceneLength
        (depthEffect 100 (Some \<lparr>scene_mesh = Some triangle, scene_baseGeometry = Some triangle\<rparr>))
        AxisZ = Some (Finite 100)"
proof -
  have len: "computeAxisLengths triangle AxisZ = Finite 50"
    by (simp add: computeAxisLengths_def computeBoundingBox_def clone_def triangle_def
        setFromBufferAttribute_def)
  have pos: "positive (computeAxisLengths triangle AxisZ)"
    by (simp add: len)
  have scale: "getScaleForTargetLength triangle AxisZ 100 = 2"
    by (simp add: getScaleForTargetLength_def len)
  show ?thesis
    using scale_extent_equals_target [of 100 triangle AxisZ
        "main_start\<lparr>mesh := Some triangle, baseGeometry := Some triangle\<rparr>" triangle
        "\<lparr>scene_mesh = Some triangle, scene_baseGeometry = Some triangle\<rparr>" triangle]
      len pos scale
    by simp
qed

text \<open>
  C2. For every target length (indeed for every scale factor), the scale operation leaves
  the extents along the two axes other than the scale axis equal to the base geometry's:
  the matrix has 1 on those axes. In the React variant the effect installs a geometry
  only when the base extent along Z is positive.
\<close>

theorem scale_keeps_other_extents:
  assumes "b \<noteq> a"
    and "mesh st = Some m" "baseGeometry st = Some base"
    and "scene_mesh sc = Some m'" "scene_baseGeometry sc = Some base"
  shows "meshLength (bakeScaleAlongAxis a s st) b = Some (computeAxisLengths base b)
       \<and> (a = AxisZ \<longrightarrow>
            meshLength (depthRangeInput T st) b = Some (computeAxisLengths base b))
       \<and> (a = AxisZ \<and> positive (computeAxisLengths base AxisZ) \<longrightarrow>
            sceneLength (depthEffect T (Some sc)) b = Some (computeAxisLengths base b))"
proof -
  have bake: "map_option (\<lambda>g. computeAxisLengths g b) (mesh (bakeScaleAlongAxis a s' st)) =
      Some (computeAxisLengths base b)" for s'
    using assms(2,3,1) by (rule bake_extent_other)
  have slider: "map_option (\<lambda>g. computeAxisLengths g b) (mesh (depthRangeInput T st)) =
      Some (computeAxisLengths base b)" if "a = AxisZ"
    using bake that by (simp add: depthRangeInput_bake [OF assms(2,3)] DEPTH_AXIS_def)
  have effect: "map_option (\<lambda>sc'. map_option (\<lambda>g. computeAxisLengths g b) (scene_mesh sc'))
      (depthEffect T (Some sc)) = Some (Some (computeAxisLengths base b))"
    if "a = AxisZ" "positive (computeAxisLengths base AxisZ)"
    using depthEffect_extent_other [OF assms(4,5) that(2)] assms(1) that(1) by simp
  show ?thesis
    using bake slider sceneLength_SomeI [OF effect] by (simp add: meshLength_def)
qed

theorem scale_keeps_other_extents_witness:
  "AxisX \<noteq> AxisZ
   \<and> positive (computeAxisLengths triangle AxisZ)
   \<and> computeAxisLengths triangle AxisX = Finite 10
   \<and> meshLength (bakeScaleAlongAxis AxisZ 2
          (main_start\<lparr>mesh := Some flat, baseGeometry := Some triangle\<rparr>)) AxisX =
      Some (Finite 10)
   \<and> meshLength (depthRangeInput 100
          (main_start\<lparr>mesh := Some flat, baseGeometry := Some triangle\<rparr>)) AxisX =
      Some (Finite 10)
   \<and> sceneLength
        (depthEffect 100 (Some \<lparr>scene_mesh = Some flat, scene_baseGeometry = Some triangle\<rparr>))
        AxisX = Some (Finite 10)"
proof -
  have lenZ: "computeAxisLengths triangle AxisZ = Finite 50"
    by (simp add: computeAxisLengths_def computeBoundingBox_def clone_def triangle_def
        setFromBufferAttribute_def)
  have lenX: "computeAxisLengths triangle AxisX = Finite 10"
    by (simp add: computeAxisLengths_def computeBoundingBox_def clone_def triangle_def
        setFromBufferAttribute_def)
  show ?thesis
    using scale_keeps_other_extents [of AxisX AxisZ
        "main_start\<lparr>mesh := Some flat, baseGeometry := Some triangle\<rparr>" flat triangle
        "\<lparr>scene_mesh = Some flat, scene_baseGeometry = Some triangle\<rparr>" flat 2 100]
      lenZ lenX
    by simp
qed

subsection \<open>A scale operation forgets the geometry it replaces\<close>

lemma bakeScaleAlongAxis_absorb:
  "bakeScaleAlongAxis a s (bakeScaleAlongAxis a' s' st) = bakeScaleAlongAxis a s st"
  by (cases "mesh st"; cases "baseGeometry st") (simp_all add: bakeScaleAlongAxis_def Let_def)

lemma baseGeometry_bakeScaleAlongAxis [simp]:
  "baseGeometry (bakeScaleAlongAxis a s st) = baseGeometry st"
  by (cases "mesh st"; cases "baseGeometry st") (simp_all add: bakeScaleAlongAxis_def Let_def)

lemma baseGeometry_depthRangeInput [simp]:
  "baseGeometry (depthRangeInput T st) = baseGeometry st"
  by (cases "mesh st") (simp_all add: depthRangeInput_def Let_def)

lemma depthRangeInput_absorb:
  "depthRangeInput T (depthRangeInput t st) = depthRangeInput T st"
proof (cases "mesh st")
  case None
  then show ?thesis by (simp add: depthRangeInput_def)
next
  case m: (Some m)
  show ?thesis
  proof (cases "baseGeometry st")
    case None
    then show ?thesis
      using m by (simp add: depthRangeInput_def bakeScaleAlongAxis_def Let_def)
  next
    case (Some base)
    then show ?thesis
      using m by (simp add: depthRangeInput_def bakeScaleAlongAxis_def Let_def)
  qed
qed

lemma depthRangeInput_after_scalings:
  "depthRangeInput T (foldl (\<lambda>s t. depthRangeInput t s) st Ts) = depthRangeInput T st"
  by (induction Ts rule: rev_induct) (simp_all add: depthRangeInput_absorb)

lemma depthRangeInput_previous_mesh:
  assumes "baseGeometry st \<noteq> None"
  shows "mesh (depthRangeInput T (st\<lparr>mesh := Some m\<rparr>)) =
    mesh (depthRangeInput T (st\<lparr>mesh := Some m'\<rparr>))"
  using assms by (auto simp: depthRangeInput_def bakeScaleAlongAxis_def Let_def)

lemma depthEffect_base [simp]:
  "map_option scene_baseGeometry (depthEffect T cur) = map_option scene_baseGeometry cur"
  by (auto simp: depthEffect_def Let_def split: option.splits extent.splits)

lemma not_positive_iff: "\<not> positive e \<longleftrightarrow> nonpositive e"
  by (cases e) auto

lemma depthEffect_None [simp]: "depthEffect T None = None"
  by (simp add: depthEffect_def)

lemma depthEffect_no_mesh:
  assumes "scene_mesh sc = None \<or> scene_baseGeometry sc = None"
  shows "depthEffect T (Some sc) = Some sc"
  using assms by (auto simp: depthEffect_def split: option.splits)

lemma depthEffect_installs:
  assumes "scene_mesh sc = Some m" "scene_baseGeometry sc = Some base"
    and "computeAxisLengths base AxisZ = Finite c" "0 < c"
  shows "depthEffect T (Some sc) =
    Some (sc\<lparr>scene_mesh := Some (computeBoundingBox (computeVertexNormals
      (applyMatrix4 (makeScale 1 1 (T / c)) (clone base))))\<rparr>)"
proof (cases "position base")
  case None
  then show ?thesis
    using assms(3) by (simp add: computeAxisLengths_position)
next
  case (Some ps)
  then have "axisLength (setFromBufferAttribute ps) AxisZ = Finite c"
    using assms(3) by (simp add: computeAxisLengths_position)
  then show ?thesis
    using assms(1,2,4) Some by (simp add: depthEffect_def Let_def)
qed

lemma depthEffect_absorb: "depthEffect T (depthEffect t cur) = depthEffect T cur"
proof (cases cur)
  case None
  then show ?thesis by simp
next
  case (Some sc)
  show ?thesis
  proof (cases "scene_mesh sc = None \<or> scene_baseGeometry sc = None")
    case True
    then show ?thesis
      using Some by (simp add: depthEffect_no_mesh)
  next
    case False
    then obtain m base where mb: "scene_mesh sc = Some m" "scene_baseGeometry sc = Some base"
      by auto
    show ?thesis
    proof (cases "positive (computeAxisLengths base AxisZ)")
      case False
      then have "nonpositive (computeAxisLengths base AxisZ)"
        by (simp add: not_positive_iff)
      then show ?thesis
        using Some mb(2) by (simp add: depthEffect_skips)
    next
      case True
      then obtain c where c: "computeAxisLengths base AxisZ = Finite c" "0 < c"
        by (cases "computeAxisLengths base AxisZ") simp_all
      let ?g = "\<lambda>T. computeBoundingBox (computeVertexNormals
        (applyMatrix4 (makeScale 1 1 (T / c)) (clone base)))"
      have once: "depthEffect u (Some sc') = Some (sc'\<lparr>scene_mesh := Some (?g u)\<rparr>)"
        if "scene_mesh sc' = Some m'" "scene_baseGeometry sc' = Some base" for u sc' m'
        using that c by (rule depthEffect_installs)
      have "depthEffect T (depthEffect t (Some sc)) =
          depthEffect T (Some (sc\<lparr>scene_mesh := Some (?g t)\<rparr>))"
        using once [OF mb] by simp
      also have "\<dots> = Some (sc\<lparr>scene_mesh := Some (?g t)\<rparr>\<lparr>scene_mesh := Some (?g T)\<rparr>)"
        using mb(2) by (intro once [of _ "?g t"]) simp_all
      also have "\<dots> = depthEffect T (Some sc)"
        using once [OF mb] by simp
      finally show ?thesis
        using Some by simp
    qed
  qed
qed

lemma depthEffect_after_scalings:
  "depthEffect T (foldl (\<lambda>c t. depthEffect t c) cur Ts) = depthEffect T cur"
  by (induction Ts rule: rev_induct) (simp_all add: depthEffect_absorb)

lemma depthEffect_previous_mesh:
  assumes "positive (computeAxisLengths base AxisZ)"
  shows "depthEffect T (Some \<lparr>scene_mesh = Some m, scene_baseGeometry = Some base\<rparr>) =
    depthEffect T (Some \<lparr>scene_mesh = Some m', scene_baseGeometry = Some base\<rparr>)"
proof -
  obtain c where c: "computeAxisLengths base AxisZ = Finite c" "0 < c"
    using assms by (cases "computeAxisLengths base AxisZ") simp_all
  then obtain ps where "position base = Some ps" "axisLength (setFromBufferAttribute ps) AxisZ = Finite c"
    by (cases "position base") (simp_all add: computeAxisLengths_position)
  then show ?thesis
    using c(2) by (simp add: depthEffect_def Let_def)
qed

lemma setParameters_twice: "setParameters T (setParameters T st) = setParameters T st"
  by (simp add: setParameters_def)

text \<open>
  C3. The scale operation is a function of the base geometry and the target only. It
  starts from a copy of the base geometry, which it leaves as it is; the geometry it
  installs does not depend on the geometry it replaces; so applying a target after any
  sequence of earlier scale operations gives the same state as applying it alone, and
  applying it twice is the same as applying it once. This holds for the baking function,
  the depth slider of the single-page variant and the depth effect of the React variant.
\<close>

theorem scale_is_function_of_base:
  "depthRangeInput T (foldl (\<lambda>s t. depthRangeInput t s) st Ts) = depthRangeInput T st
   \<and> depthRangeInput T (depthRangeInput T st) = depthRangeInput T st
   \<and> bakeScaleAlongAxis a s (bakeScaleAlongAxis a' s' st) = bakeScaleAlongAxis a s st
   \<and> baseGeometry (depthRangeInput T st) = baseGeometry st
   \<and> (baseGeometry st \<noteq> None \<longrightarrow>
        mesh (depthRangeInput T (st\<lparr>mesh := Some m\<rparr>)) =
        mesh (depthRangeInput T (st\<lparr>mesh := Some m'\<rparr>)))
   \<and> depthEffect T (foldl (\<lambda>c t. depthEffect t c) cur Ts) = depthEffect T cur
   \<and> depthEffect T (depthEffect T cur) = depthEffect T cur
   \<and> map_option scene_baseGeometry (depthEffect T cur) = map_option scene_baseGeometry cur
   \<and> (positive (computeAxisLengths base AxisZ) \<longrightarrow>
        depthEffect T (Some \<lparr>scene_mesh = Some m, scene_baseGeometry = Some base\<rparr>) =
        depthEffect T (Some \<lparr>scene_mesh = Some m', scene_baseGeometry = Some base\<rparr>))
   \<and> setParameters T (setParameters T app) = setParameters T app"
  using depthRangeInput_after_scalings [of T st Ts] depthRangeInput_absorb [of T T st]
    bakeScaleAlongAxis_absorb [of a s a' s' st] baseGeometry_depthRangeInput [of T st]
    depthRangeInput_previous_mesh [of st T m m']
    depthEffect_after_scalings [of T cur Ts] depthEffect_absorb [of T T cur]
    depthEffect_base [of T cur] depthEffect_previous_mesh [of base T m m']
    setParameters_twice [of T app]
  by blast

theorem scale_is_function_of_base_witness:
  "depthRangeInput 100 (foldl (\<lambda>s t. depthRangeInput t s)
       (main_start\<lparr>mesh := Some triangle, baseGeometry := Some triangle\<rparr>) [25, 200]) =
     depthRangeInput 100 (main_start\<lparr>mesh := Some triangle, baseGeometry := Some triangle\<rparr>)
   \<and> baseGeometry (main_start\<lparr>mesh := Some triangle, baseGeometry := Some triangle\<rparr>) \<noteq> None
   \<and> mesh (depthRangeInput 100
         (main_start\<lparr>mesh := Some triangle, baseGeometry := Some triangle\<rparr>\<lparr>mesh := Some flat\<rparr>)) =
     mesh (depthRangeInput 100
         (main_start\<lparr>mesh := Some triangle, baseGeometry := Some triangle\<rparr>\<lparr>mesh := Some triangle\<rparr>))
   \<and> positive (computeAxisLengths triangle AxisZ)
   \<and> depthEffect 100 (Some \<lparr>scene_mesh = Some flat, scene_baseGeometry = Some triangle\<rparr>) =
     depthEffect 100 (Some \<lparr>scene_mesh = Some triangle, scene_baseGeometry = Some triangle\<rparr>)"
proof -
  have pos: "positive (computeAxisLengths triangle AxisZ)"
    by (simp add: computeAxisLengths_def computeBoundingBox_def clone_def triangle_def
        setFromBufferAttribute_def)
  have base: "baseGeometry (main_start\<lparr>mesh := Some triangle, baseGeometry := Some triangle\<rparr>) \<noteq> None"
    by simp
  show ?thesis
    using scale_is_function_of_base [where T = 100 and Ts = "[25, 200]"
        and st = "main_start\<lparr>mesh := Some triangle, baseGeometry := Some triangle\<rparr>"
        and m = flat and m' = triangle and base = triangle] pos base
    by blast
qed

subsection \<open>Reset\<close>

lemma mesh_after_scalings:
  assumes "mesh st = Some m" "baseGeometry st = Some base"
  shows "mesh (foldl (\<lambda>s t. depthRangeInput t s) st Ts) \<noteq> None \<and>
    baseGeometry (foldl (\<lambda>s t. depthRangeInput t s) st Ts) = Some base"
proof (induction Ts rule: rev_induct)
  case Nil
  then show ?case using assms by simp
next
  case (snoc t Ts)
  then show ?case
    by (auto simp: depthRangeInput_def bakeScaleAlongAxis_def Let_def)
qed

lemma scalings_change_mesh_only:
  "\<exists>g. foldl (\<lambda>s t. depthRangeInput t s) st Ts = st\<lparr>mesh := g\<rparr>"
proof (induction Ts rule: rev_induct)
  case Nil
  have "st = st\<lparr>mesh := mesh st\<rparr>" by simp
  then show ?case by (metis foldl_Nil)
next
  case (snoc t Ts)
  then obtain g where g: "foldl (\<lambda>s t. depthRangeInput t s) st Ts = st\<lparr>mesh := g\<rparr>"
    by blast
  have "\<exists>g'. depthRangeInput t (st\<lparr>mesh := g\<rparr>) = st\<lparr>mesh := g'\<rparr>"
    by (cases g; cases "baseGeometry st")
      (auto simp: depthRangeInput_def bakeScaleAlongAxis_def Let_def)
  then show ?case
    using g by simp
qed

lemma resetScaleClick_installs_base:
  assumes "mesh st = Some m" "baseGeometry st = Some base"
  shows "resetScaleClick st = st\<lparr>mesh := Some (fitCameraToObject (clone base))\<rparr>"
  using assms by (simp add: resetScaleClick_def)

lemma reset_after_scalings:
  assumes "mesh st = Some m" "baseGeometry st = Some base"
  shows "resetScaleClick (foldl (\<lambda>s t. depthRangeInput t s) st Ts) =
    st\<lparr>mesh := Some (fitCameraToObject (clone base))\<rparr>"
proof -
  obtain g where g: "foldl (\<lambda>s t. depthRangeInput t s) st Ts = st\<lparr>mesh := g\<rparr>"
    using scalings_change_mesh_only by blast
  moreover have "g \<noteq> None"
    using mesh_after_scalings [OF assms, of Ts] g by simp
  ultimately show ?thesis
    using assms(2) by (auto simp: resetScaleClick_def)
qed

lemma reset_restores_load:
  "resetScaleClick (foldl (\<lambda>s t. depthRangeInput t s) (loadSTLFromArrayBuffer parsed s0) Ts) =
    loadSTLFromArrayBuffer parsed s0"
proof -
  let ?st = "loadSTLFromArrayBuffer parsed s0"
  obtain geo where geo: "mesh ?st = Some (fitCameraToObject geo)" "baseGeometry ?st = Some geo"
    by (simp add: loadSTLFromArrayBuffer_def Let_def clone_def)
  have "resetScaleClick (foldl (\<lambda>s t. depthRangeInput t s) ?st Ts) =
      ?st\<lparr>mesh := Some (fitCameraToObject (clone geo))\<rparr>"
    using geo by (rule reset_after_scalings)
  also have "\<dots> = ?st"
    using geo(1) by (simp add: clone_def)
  finally show ?thesis .
qed

lemma reset_extent:
  assumes "mesh st = Some m" "baseGeometry st = Some base"
  shows "meshLength (resetScaleClick (foldl (\<lambda>s t. depthRangeInput t s) st Ts)) a =
    Some (computeAxisLengths base a)"
  using reset_after_scalings [OF assms, of Ts]
  by (simp add: meshLength_def computeAxisLengths_position)

text \<open>
  C4, as the claim states it, fails in the React variant: after the asset (Z extent 50)
  is loaded, the slider is moved to 100 and Reset is pressed, the geometry on display has
  Z extent 10, not the 50 it had at load.
\<close>

theorem react_reset_counterexample:
  "sceneLength (sceneRef (app_run [Loaded (Parsed triangle)])) AxisZ = Some (Finite 50)
   \<and> sceneLength (sceneRef (app_run [Loaded (Parsed triangle), SliderChange 100, ResetClick]))
        AxisZ = Some (Finite 10)"
  by (simp add: app_run_def app_start_def loadSTL_def sliderOnValueChange_def
      updateParameter_def setParameters_def resetOnClick_def depthEffect_def
      center_def translate_def applyMatrix4_def computeBoundingBox_def computeVertexNormals_def
      clone_def fitCameraToObject_def triangle_def setFromBufferAttribute_def makeTranslation_def
      makeScale_def sceneLength_def computeAxisLengths_def Let_def)

lemma sceneRef_resetOnClick:
  assumes "depth app \<noteq> 10"
  shows "sceneRef (resetOnClick app) = depthEffect 10 (sceneRef app)"
  using assms by (simp add: resetOnClick_def setParameters_def)

lemma depth_resetOnClick: "depth (resetOnClick app) = 10"
  by (simp add: resetOnClick_def setParameters_def)

text \<open>
  C4, amended. In the single-page variant, reset after any number of scale operations
  installs a fresh copy of the base geometry: after a load the state is again the state
  at load, and from any state with a mesh and a base geometry the extent along every
  axis is the base geometry's. In the React variant Reset sets the depth back to its
  default 10; when the depth was another value and the base extent along Z is positive,
  the geometry is derived again from the base, with Z extent 10 and the base's X and Y
  extents.
\<close>

theorem reset_restores_base:
  "resetScaleClick (foldl (\<lambda>s t. depthRangeInput t s) (loadSTLFromArrayBuffer parsed s0) Ts) =
     loadSTLFromArrayBuffer parsed s0
   \<and> (mesh st = Some m \<and> baseGeometry st = Some base \<longrightarrow>
        meshLength (resetScaleClick (foldl (\<lambda>s t. depthRangeInput t s) st Ts)) a =
          Some (computeAxisLengths base a))
   \<and> depth (resetOnClick app) = 10
   \<and> (depth app \<noteq> 10 \<and> sceneRef app = Some sc \<and> scene_mesh sc = Some m'
        \<and> scene_baseGeometry sc = Some base' \<and> positive (computeAxisLengths base' AxisZ) \<longrightarrow>
        sceneLength (sceneRef (resetOnClick app)) AxisZ = Some (Finite 10)
        \<and> sceneLength (sceneRef (resetOnClick app)) AxisX = Some (computeAxisLengths base' AxisX)
        \<and> sceneLength (sceneRef (resetOnClick app)) AxisY = Some (computeAxisLengths base' AxisY))"
proof -
  have react: "sceneLength (sceneRef (resetOnClick app)) AxisZ = Some (Finite 10)
      \<and> sceneLength (sceneRef (resetOnClick app)) AxisX = Some (computeAxisLengths base' AxisX)
      \<and> sceneLength (sceneRef (resetOnClick app)) AxisY = Some (computeAxisLengths base' AxisY)"
    if h: "depth app \<noteq> 10" "sceneRef app = Some sc" "scene_mesh sc = Some m'"
      "scene_baseGeometry sc = Some base'" "positive (computeAxisLengths base' AxisZ)"
  proof -
    have ref: "sceneRef (resetOnClick app) = depthEffect 10 (Some sc)"
      using h(1,2) by (simp add: sceneRef_resetOnClick)
    have z: "sceneLength (depthEffect 10 (Some sc)) AxisZ = Some (Finite 10)"
      by (rule sceneLength_SomeI, rule depthEffect_extent_target [OF h(3,4,5)]) simp
    have x: "sceneLength (depthEffect 10 (Some sc)) AxisX = Some (computeAxisLengths base' AxisX)"
      by (rule sceneLength_SomeI, rule depthEffect_extent_other [OF h(3,4,5)]) simp
    have y: "sceneLength (depthEffect 10 (Some sc)) AxisY = Some (computeAxisLengths base' AxisY)"
      by (rule sceneLength_SomeI, rule depthEffect_extent_other [OF h(3,4,5)]) simp
    show ?thesis
      using ref x y z by simp
  qed
  show ?thesis
    using reset_restores_load [of parsed s0 Ts] reset_extent [of st m base Ts a]
      depth_resetOnClick [of app] react
    by blast
qed

theorem reset_restores_base_witness:
  "mesh (main_start\<lparr>mesh := Some flat, baseGeometry := Some triangle\<rparr>) = Some flat
   \<and> baseGeometry (main_start\<lparr>mesh := Some flat, baseGeometry := Some triangle\<rparr>) = Some triangle
   \<and> meshLength (resetScaleClick (foldl (\<lambda>s t. depthRangeInput t s)
        (main_start\<lparr>mesh := Some flat, baseGeometry := Some triangle\<rparr>) [100, 25])) AxisZ =
      Some (Finite 50)
   \<and> depth \<lparr>console = [], downloads = [], depth = 100,
        sceneRef = Some \<lparr>scene_mesh = Some flat, scene_baseGeometry = Some triangle\<rparr>\<rparr> \<noteq> 10
   \<and> positive (computeAxisLengths triangle AxisZ)
   \<and> sceneLength (sceneRef (resetOnClick \<lparr>console = [], downloads = [], depth = 100,
        sceneRef = Some \<lparr>scene_mesh = Some flat, scene_baseGeometry = Some triangle\<rparr>\<rparr>)) AxisZ =
      Some (Finite 10)
   \<and> sceneLength (sceneRef (resetOnClick \<lparr>console = [], downloads = [], depth = 100,
        sceneRef = Some \<lparr>scene_mesh = Some flat, scene_baseGeometry = Some triangle\<rparr>\<rparr>)) AxisX =
      Some (Finite 10)"
proof -
  have lenZ: "computeAxisLengths triangle AxisZ = Finite 50"
    by (simp add: computeAxisLengths_def computeBoundingBox_def clone_def triangle_def
        setFromBufferAttribute_def)
  have lenX: "computeAxisLengths triangle AxisX = Finite 10"
    by (simp add: computeAxisLengths_def computeBoundingBox_def clone_def triangle_def
        setFromBufferAttribute_def)
  show ?thesis
    using reset_restores_base [where st = "main_start\<lparr>mesh := Some flat, baseGeometry := Some triangle\<rparr>"
        and m = flat and base = triangle and Ts = "[100, 25]" and a = AxisZ
        and app = "\<lparr>console = [], downloads = [], depth = 100,
          sceneRef = Some \<lparr>scene_mesh = Some flat, scene_baseGeometry = Some triangle\<rparr>\<rparr>"
        and sc = "\<lparr>scene_mesh = Some flat, scene_baseGeometry = Some triangle\<rparr>"
        and m' = flat and base' = triangle]
      lenZ lenX
    by simp
qed

subsection \<open>States the single-page variant can reach\<close>

lemma applyMatrix4_identity:
  assumes "boundingBox b = boundingBox (computeBoundingBox b)"
  shows "applyMatrix4 (makeScale 1 1 1) b = b"
proof -
  have "map_option (map (Vector3_applyMatrix4 (makeScale 1 1 1))) (position b) = position b"
    by (cases "position b") (simp_all add: map_applyMatrix4_identity)
  then show ?thesis
    using assms by (simp add: applyMatrix4_def computeBoundingBox_def Let_def)
qed

lemma computeBoundingBox_idem:
  "boundingBox (computeBoundingBox g) = boundingBox (computeBoundingBox (computeBoundingBox g))"
  by (simp add: computeBoundingBox_def)

lemma computeBoundingBox_fixed:
  assumes "boundingBox b = boundingBox (computeBoundingBox b)"
  shows "computeBoundingBox b = b" "fitCameraToObject b = b"
  using assms by (simp_all add: computeBoundingBox_def fitCameraToObject_def)

lemma applyMatrix4_boxed:
  assumes "boundingBox g \<noteq> None"
  shows "boundingBox (applyMatrix4 m g) = boundingBox (computeBoundingBox (applyMatrix4 m g))"
  using assms by (auto simp: applyMatrix4_def computeBoundingBox_def Let_def)

lemma vertexCount_position:
  "position g = map_option (map f) (position b) \<Longrightarrow> vertexCount g = vertexCount b"
  by (cases "position b") (simp_all add: vertexCount_def)

lemma main_invariant_start: "main_invariant main_start"
  by (simp add: main_invariant_def main_start_def)

lemma loadSTLFromArrayBuffer_installs:
  "\<exists>geo. loadSTLFromArrayBuffer parsed st = st\<lparr>mesh := Some geo, baseGeometry := Some geo\<rparr>
    \<and> boundingBox geo = boundingBox (computeBoundingBox geo)"
proof -
  let ?g0 = "computeBoundingBox (computeVertexNormals parsed)"
  obtain bb where bb: "boundingBox ?g0 = Some bb"
    by (simp add: computeBoundingBox_def)
  have g0: "boundingBox ?g0 = boundingBox (computeBoundingBox ?g0)"
    by (rule computeBoundingBox_idem)
  show ?thesis
  proof (cases bb)
    case EmptyBox
    then have "loadSTLFromArrayBuffer parsed st =
        st\<lparr>mesh := Some (fitCameraToObject ?g0), baseGeometry := Some (clone ?g0)\<rparr>"
      using bb by (simp add: loadSTLFromArrayBuffer_def Let_def)
    then have "loadSTLFromArrayBuffer parsed st =
        st\<lparr>mesh := Some ?g0, baseGeometry := Some ?g0\<rparr>"
      by (simp add: clone_def computeBoundingBox_fixed(2) [OF g0])
    then show ?thesis
      using g0 by blast
  next
    case (Box3 mn mx)
    define g1 where "g1 = translate (- ((vx mn + vx mx) * 0.5)) (- ((vy mn + vy mx) * 0.5))
      (- ((vz mn + vz mx) * 0.5)) ?g0"
    have g1: "boundingBox g1 = boundingBox (computeBoundingBox g1)"
      unfolding g1_def translate_def using bb by (intro applyMatrix4_boxed) simp
    have "loadSTLFromArrayBuffer parsed st =
        st\<lparr>mesh := Some (fitCameraToObject g1), baseGeometry := Some (clone g1)\<rparr>"
      unfolding g1_def using bb Box3 by (simp add: loadSTLFromArrayBuffer_def Let_def)
    then have "loadSTLFromArrayBuffer parsed st = st\<lparr>mesh := Some g1, baseGeometry := Some g1\<rparr>"
      by (simp add: clone_def computeBoundingBox_fixed(2) [OF g1])
    then show ?thesis
      using g1 by blast
  qed
qed

lemma main_invariant_load: "main_invariant (loadSTLFromArrayBuffer parsed st)"
proof -
  obtain geo where "loadSTLFromArrayBuffer parsed st = st\<lparr>mesh := Some geo, baseGeometry := Some geo\<rparr>"
    "boundingBox geo = boundingBox (computeBoundingBox geo)"
    using loadSTLFromArrayBuffer_installs by blast
  then show ?thesis
    by (simp add: main_invariant_def)
qed

lemma main_invariant_depthRangeInput:
  assumes "main_invariant st"
  shows "main_invariant (depthRangeInput T st)"
proof (cases "mesh st")
  case None
  then show ?thesis
    using assms by (simp add: depthRangeInput_def)
next
  case (Some g)
  then obtain b where b: "baseGeometry st = Some b"
    and box: "boundingBox b = boundingBox (computeBoundingBox b)"
    and cnt: "vertexCount g = vertexCount b"
    using assms by (auto simp: main_invariant_def split: option.splits)
  let ?s = "getScaleForTargetLength b DEPTH_AXIS T"
  let ?g = "fitCameraToObject (computeBoundingBox (computeVertexNormals
    (applyMatrix4 (makeScale 1 1 ?s) (clone b))))"
  have st: "depthRangeInput T st = st\<lparr>mesh := Some ?g\<rparr>"
    using Some b by (simp add: depthRangeInput_def bakeScaleAlongAxis_def DEPTH_AXIS_def Let_def)
  have "vertexCount ?g = vertexCount b"
    by (rule vertexCount_position [where f = "Vector3_applyMatrix4 (makeScale 1 1 ?s)"]) simp
  moreover have "?g = b" if "nonpositive (computeAxisLengths b DEPTH_AXIS)"
  proof -
    have "?s = 1"
      using that by (rule getScaleForTargetLength_nonpositive)
    then have "?g = fitCameraToObject (computeBoundingBox b)"
      by (simp add: applyMatrix4_identity [OF box] clone_def computeVertexNormals_def)
    then show ?thesis
      by (simp add: computeBoundingBox_fixed [OF box])
  qed
  ultimately show ?thesis
    using b box by (simp add: st main_invariant_def)
qed

lemma main_invariant_reset:
  assumes "main_invariant st"
  shows "main_invariant (resetScaleClick st)"
proof (cases "mesh st")
  case None
  then show ?thesis
    using assms by (simp add: resetScaleClick_def)
next
  case (Some g)
  then obtain b where b: "baseGeometry st = Some b"
    and box: "boundingBox b = boundingBox (computeBoundingBox b)"
    using assms by (auto simp: main_invariant_def split: option.splits)
  have "resetScaleClick st = st\<lparr>mesh := Some b\<rparr>"
    using Some b by (simp add: resetScaleClick_def clone_def computeBoundingBox_fixed(2) [OF box])
  then show ?thesis
    using b box by (simp add: main_invariant_def)
qed

lemma main_invariant_export:
  assumes "main_invariant st"
  shows "main_invariant (exportCurrentMeshAsSTL now st)"
  using assms
  by (cases "mesh st") (simp_all add: main_invariant_def exportCurrentMeshAsSTL_def)

lemma main_invariant_step:
  assumes "main_invariant st"
  shows "main_invariant (main_step st e)"
proof (cases e)
  case (AutoLoad r)
  show ?thesis
  proof (cases r)
    case (Failed err)
    then show ?thesis
      using assms AutoLoad by (simp add: autoLoadProvidedSTL_def main_invariant_def)
  next
    case (Parsed parsed)
    then show ?thesis
      using AutoLoad by (simp add: autoLoadProvidedSTL_def main_invariant_load)
  qed
next
  case (DepthInput T)
  then show ?thesis
    using assms by (simp add: main_invariant_depthRangeInput)
next
  case ResetScale
  then show ?thesis
    using assms by (simp add: main_invariant_reset)
next
  case (ExportSTL now)
  then show ?thesis
    using assms by (simp add: main_invariant_export)
qed

lemma main_invariant_run: "main_invariant (main_run evs)"
  unfolding main_run_def
  by (induction evs rule: rev_induct) (simp_all add: main_invariant_start main_invariant_step)

lemma depthRangeInput_degenerate:
  assumes "main_invariant st" "baseGeometry st = Some base"
    and "nonpositive (computeAxisLengths base DEPTH_AXIS)"
  shows "depthRangeInput T st = st"
proof -
  have m: "mesh st = Some base"
    and box: "boundingBox base = boundingBox (computeBoundingBox base)"
    using assms by (auto simp: main_invariant_def split: option.splits)
  have s: "getScaleForTargetLength base DEPTH_AXIS T = 1"
    using assms(3) by (rule getScaleForTargetLength_nonpositive)
  have "depthRangeInput T st = st\<lparr>mesh := Some (fitCameraToObject (computeBoundingBox
      (computeVertexNormals (applyMatrix4 (makeScale 1 1 1) (clone base)))))\<rparr>"
    using m assms(2) s
    by (simp add: depthRangeInput_def bakeScaleAlongAxis_def Let_def DEPTH_AXIS_def)
  also have "\<dots> = st\<lparr>mesh := Some base\<rparr>"
    by (simp add: applyMatrix4_identity [OF box] clone_def computeVertexNormals_def
        computeBoundingBox_fixed [OF box])
  also have "\<dots> = st"
    using m by simp
  finally show ?thesis .
qed

lemma depthRangeInput_degenerate_position:
  assumes "mesh st = Some m" "baseGeometry st = Some base"
    and "nonpositive (computeAxisLengths base DEPTH_AXIS)"
  shows "map_option position (mesh (depthRangeInput T st)) = Some (position base)"
proof -
  have "map_option (map (Vector3_applyMatrix4 (makeScale 1 1 1))) (position base) = position base"
    by (cases "position base") (simp_all add: map_applyMatrix4_identity)
  then show ?thesis
    using assms
    by (simp add: depthRangeInput_def bakeScaleAlongAxis_def Let_def DEPTH_AXIS_def
        getScaleForTargetLength_nonpositive)
qed

lemma console_depthRangeInput [simp]: "console (depthRangeInput T st) = console st"
  using scalings_change_mesh_only [of st "[T]"] by auto

lemma downloads_depthRangeInput [simp]: "downloads (depthRangeInput T st) = downloads st"
  using scalings_change_mesh_only [of st "[T]"] by auto

lemma computeAxisLengths_no_vertices:
  assumes "position geom = None \<or> position geom = Some []"
  shows "computeAxisLengths geom a = NegInfinity"
  using assms by (auto simp: computeAxisLengths_position setFromBufferAttribute_Nil)

text \<open>
  C5, as the claim states it, fails: on a mesh lying in the plane \<open>z = 0\<close> the base extent
  along Z is 0, and the scale factor computed for the target 100 is the ordinary number 1.
  Nothing is reported: the depth slider leaves the whole state, console included, as it
  was after the load.
\<close>

theorem degenerate_factor_counterexample:
  "computeAxisLengths flat AxisZ = Finite 0
   \<and> getScaleForTargetLength flat AxisZ 100 = 1
   \<and> main_run [AutoLoad (Parsed flat), DepthInput 100] = main_run [AutoLoad (Parsed flat)]
   \<and> console (main_run [AutoLoad (Parsed flat), DepthInput 100]) = []"
  by (simp add: main_run_def main_start_def autoLoadProvidedSTL_def loadSTLFromArrayBuffer_def
      depthRangeInput_def bakeScaleAlongAxis_def getScaleForTargetLength_def DEPTH_AXIS_def
      translate_def applyMatrix4_def computeBoundingBox_def computeVertexNormals_def
      clone_def fitCameraToObject_def flat_def setFromBufferAttribute_def makeTranslation_def
      makeScale_def computeAxisLengths_def Let_def)

text \<open>
  C5, amended. Computing the scale factor never reports an error. When the base extent
  along the scale axis is not positive (0 for a flat mesh, \<open>-\<infinity>\<close> for a geometry without
  vertices) \<^verbatim>\<open>getScaleForTargetLength\<close> returns the factor 1, and the depth slider writes
  nothing to the console; when the extent is positive it returns the target divided by
  the extent, which is the largest minus the smallest coordinate of the vertices. The
  division is only made by a positive extent.
\<close>

theorem scale_factor_or_one:
  "(nonpositive (computeAxisLengths geom a) \<longrightarrow> getScaleForTargetLength geom a T = 1)
   \<and> (computeAxisLengths geom a = Finite c \<and> 0 < c \<longrightarrow>
        getScaleForTargetLength geom a T = T / c)
   \<and> (position geom = Some ps \<and> ps \<noteq> [] \<longrightarrow>
        computeAxisLengths geom a = Finite (Max (coord a ` set ps) - Min (coord a ` set ps)))
   \<and> (position geom = None \<or> position geom = Some [] \<longrightarrow>
        computeAxisLengths geom a = NegInfinity)
   \<and> console (depthRangeInput T st) = console st"
  using getScaleForTargetLength_nonpositive [of geom a T]
    getScaleForTargetLength_positive [of geom a c T]
    computeAxisLengths_Max_Min [of geom ps a] computeAxisLengths_no_vertices [of geom a]
    console_depthRangeInput [of T st]
  by blast

theorem scale_factor_or_one_witness:
  "nonpositive (computeAxisLengths flat AxisZ)
   \<and> getScaleForTargetLength flat AxisZ 100 = 1
   \<and> computeAxisLengths triangle AxisZ = Finite 50 \<and> (0::real) < 50
   \<and> getScaleForTargetLength triangle AxisZ 100 = 100 / 50
   \<and> position triangle = Some [Vector3 0 0 (-25), Vector3 10 0 25, Vector3 0 5 0]
   \<and> [Vector3 0 0 (-25), Vector3 10 0 25, Vector3 0 5 0] \<noteq> []
   \<and> Finite 50 = Finite (Max (coord AxisZ ` set [Vector3 0 0 (-25), Vector3 10 0 25, Vector3 0 5 0])
        - Min (coord AxisZ ` set [Vector3 0 0 (-25), Vector3 10 0 25, Vector3 0 5 0]))
   \<and> position \<lparr>position = Some [], boundingBox = None\<rparr> = Some []
   \<and> computeAxisLengths \<lparr>position = Some [], boundingBox = None\<rparr> AxisZ = NegInfinity
   \<and> getScaleForTargetLength \<lparr>position = Some [], boundingBox = None\<rparr> AxisZ 100 = 1"
proof -
  have flat0: "nonpositive (computeAxisLengths flat AxisZ)"
    by (simp add: computeAxisLengths_def computeBoundingBox_def clone_def flat_def
        setFromBufferAttribute_def)
  have len: "computeAxisLengths triangle AxisZ = Finite 50"
    by (simp add: computeAxisLengths_def computeBoundingBox_def clone_def triangle_def
        setFromBufferAttribute_def)
  have none: "nonpositive (computeAxisLengths \<lparr>position = Some [], boundingBox = None\<rparr> AxisZ)"
    by (simp add: computeAxisLengths_def computeBoundingBox_def clone_def
        setFromBufferAttribute_def)
  have pos: "position triangle = Some [Vector3 0 0 (-25), Vector3 10 0 25, Vector3 0 5 0]"
    by (simp add: triangle_def)
  show ?thesis
    using scale_factor_or_one [of flat AxisZ 100]
      scale_factor_or_one [of triangle AxisZ 100 50
        "[Vector3 0 0 (-25), Vector3 10 0 25, Vector3 0 5 0]"]
      scale_factor_or_one [of "\<lparr>position = Some [], boundingBox = None\<rparr>" AxisZ 100]
      flat0 len none pos
    by simp
qed

text \<open>
  C6. When the base geometry's extent along the depth axis is not positive, the scale
  operation changes nothing. In the single-page variant the factor is 1: the geometry
  installed has the base geometry's positions, and in every state the application can
  reach the slider leaves the whole state as it was. In the React variant the effect
  returns before touching the mesh, so a change of the depth only changes the depth.
\<close>

theorem degenerate_base_no_scaling:
  "(nonpositive (computeAxisLengths base a) \<longrightarrow> getScaleForTargetLength base a T = 1)
   \<and> (mesh st = Some m \<and> baseGeometry st = Some base
        \<and> nonpositive (computeAxisLengths base DEPTH_AXIS) \<longrightarrow>
        map_option position (mesh (depthRangeInput T st)) = Some (position base))
   \<and> (baseGeometry (main_run evs) = Some base
        \<and> nonpositive (computeAxisLengths base DEPTH_AXIS) \<longrightarrow>
        depthRangeInput T (main_run evs) = main_run evs)
   \<and> (scene_baseGeometry sc = Some base \<and> nonpositive (computeAxisLengths base AxisZ) \<longrightarrow>
        depthEffect T (Some sc) = Some sc)
   \<and> (sceneRef app = Some sc \<and> scene_baseGeometry sc = Some base
        \<and> nonpositive (computeAxisLengths base AxisZ) \<longrightarrow>
        setParameters T app = app\<lparr>depth := T\<rparr>)"
proof -
  have app: "setParameters T app = app\<lparr>depth := T\<rparr>"
    if "sceneRef app = Some sc" "scene_baseGeometry sc = Some base"
      "nonpositive (computeAxisLengths base AxisZ)"
  proof -
    have "depthEffect T (sceneRef app) = sceneRef app"
      using that by (simp add: depthEffect_skips)
    then show ?thesis
      by (simp add: setParameters_def)
  qed
  show ?thesis
    using getScaleForTargetLength_nonpositive [of base a T]
      depthRangeInput_degenerate_position [of st m base T]
      depthRangeInput_degenerate [OF main_invariant_run, of evs base T]
      depthEffect_skips [of sc base T] app
    by blast
qed

theorem degenerate_base_no_scaling_witness:
  "nonpositive (computeAxisLengths flat AxisZ)
   \<and> getScaleForTargetLength flat AxisZ 100 = 1
   \<and> map_option position (mesh (depthRangeInput 100
        (main_start\<lparr>mesh := Some triangle, baseGeometry := Some flat\<rparr>))) = Some (position flat)
   \<and> baseGeometry (main_run [AutoLoad (Parsed flat)]) =
      Some (the (baseGeometry (main_run [AutoLoad (Parsed flat)])))
   \<and> nonpositive (computeAxisLengths (the (baseGeometry (main_run [AutoLoad (Parsed flat)])))
        DEPTH_AXIS)
   \<and> depthRangeInput 100 (main_run [AutoLoad (Parsed flat)]) = main_run [AutoLoad (Parsed flat)]
   \<and> depthEffect 100 (Some \<lparr>scene_mesh = Some triangle, scene_baseGeometry = Some flat\<rparr>) =
      Some \<lparr>scene_mesh = Some triangle, scene_baseGeometry = Some flat\<rparr>
   \<and> setParameters 100 \<lparr>console = [], downloads = [], depth = 10,
        sceneRef = Some \<lparr>scene_mesh = Some triangle, scene_baseGeometry = Some flat\<rparr>\<rparr> =
      \<lparr>console = [], downloads = [], depth = 100,
        sceneRef = Some \<lparr>scene_mesh = Some triangle, scene_baseGeometry = Some flat\<rparr>\<rparr>"
proof -
  have flat0: "nonpositive (computeAxisLengths flat AxisZ)"
    by (simp add: computeAxisLengths_def computeBoundingBox_def clone_def flat_def
        setFromBufferAttribute_def)
  have run: "baseGeometry (main_run [AutoLoad (Parsed flat)]) =
      Some (the (baseGeometry (main_run [AutoLoad (Parsed flat)])))"
    by (simp add: main_run_def autoLoadProvidedSTL_def loadSTLFromArrayBuffer_def Let_def)
  have run0: "nonpositive (computeAxisLengths (the (baseGeometry (main_run [AutoLoad (Parsed flat)])))
      DEPTH_AXIS)"
    by (simp add: main_run_def main_start_def autoLoadProvidedSTL_def loadSTLFromArrayBuffer_def
        DEPTH_AXIS_def translate_def applyMatrix4_def computeBoundingBox_def
        computeVertexNormals_def clone_def flat_def setFromBufferAttribute_def
        makeTranslation_def computeAxisLengths_def Let_def)
  show ?thesis
    using degenerate_base_no_scaling [where base = flat and a = AxisZ and T = 100
        and st = "main_start\<lparr>mesh := Some triangle, baseGeometry := Some flat\<rparr>"
        and m = triangle
        and sc = "\<lparr>scene_mesh = Some triangle, scene_baseGeometry = Some flat\<rparr>"
        and app = "\<lparr>console = [], downloads = [], depth = 10,
          sceneRef = Some \<lparr>scene_mesh = Some triangle, scene_baseGeometry = Some flat\<rparr>\<rparr>"]
      degenerate_base_no_scaling [where T = 100 and evs = "[AutoLoad (Parsed flat)]"
        and base = "the (baseGeometry (main_run [AutoLoad (Parsed flat)]))"]
      flat0 run run0
    by (simp add: DEPTH_AXIS_def)
qed

subsection \<open>The number input of the React variant\<close>

lemma depth_setParameters [simp]: "depth (setParameters d st) = d"
  by (simp add: setParameters_def)

lemma sceneRef_setParameters:
  "sceneRef (setParameters d st) = (if d = depth st then sceneRef st else depthEffect d (sceneRef st))"
  by (simp add: setParameters_def)

lemma sceneLength_depthEffect_twice:
  assumes "scene_mesh sc = Some m" "scene_baseGeometry sc = Some base"
    and "positive (computeAxisLengths base AxisZ)" and "0 \<le> T"
  shows "sceneLength (depthEffect T (depthEffect v (Some sc))) AxisZ = Some (Finite T)"
  unfolding depthEffect_absorb
  by (rule sceneLength_SomeI, rule depthEffect_extent_target [OF assms])





subsection \<open>The number of vertices\<close>

lemma vertexCount_bake:
  assumes "mesh st = Some m" "baseGeometry st = Some base"
  shows "map_option vertexCount (mesh (bakeScaleAlongAxis a s st)) = Some (vertexCount base)"
proof -
  obtain g where "mesh (bakeScaleAlongAxis a s st) = Some g"
    "position g = map_option (map (Vector3_applyMatrix4
      (makeScale (if a = AxisX then s else 1) (if a = AxisY then s else 1)
         (if a = AxisZ then s else 1)))) (position base)"
    using mesh_bakeScaleAlongAxis [OF assms] by blast
  then show ?thesis
    by (simp add: vertexCount_position)
qed

lemma vertexCount_depthRangeInput:
  assumes "mesh st = Some m" "baseGeometry st = Some base"
  shows "map_option vertexCount (mesh (depthRangeInput T st)) = Some (vertexCount base)"
  using vertexCount_bake [OF assms] by (simp add: depthRangeInput_bake [OF assms])

lemma vertexCount_reset:
  assumes "mesh st = Some m" "baseGeometry st = Some base"
  shows "map_option vertexCount (mesh (resetScaleClick st)) = Some (vertexCount base)"
  using assms by (simp add: resetScaleClick_def vertexCount_def)

lemma baseGeometry_resetScaleClick [simp]: "baseGeometry (resetScaleClick st) = baseGeometry st"
  by (cases "mesh st"; cases "baseGeometry st") (simp_all add: resetScaleClick_def)

lemma vertexCount_main_run:
  "map_option vertexCount (mesh (main_run evs)) =
    map_option vertexCount (baseGeometry (main_run evs))"
  using main_invariant_run [of evs]
  by (cases "mesh (main_run evs)"; cases "baseGeometry (main_run evs)")
    (simp_all add: main_invariant_def)

lemma vertexCount_depthEffect:
  assumes "scene_mesh sc = Some m" "scene_baseGeometry sc = Some base"
    and "vertexCount m = vertexCount base"
  shows "map_option vertexCount (Option.bind (depthEffect T (Some sc)) scene_mesh) =
    Some (vertexCount base)"
proof (cases "positive (computeAxisLengths base AxisZ)")
  case True
  then obtain c where c: "computeAxisLengths base AxisZ = Finite c" "0 < c"
    by (cases "computeAxisLengths base AxisZ") simp_all
  obtain g where "depthEffect T (Some sc) = Some (sc\<lparr>scene_mesh := Some g\<rparr>)"
    "position g = map_option (map (Vector3_applyMatrix4 (makeScale 1 1 (T / c)))) (position base)"
    using depthEffect_runs [OF assms(1,2) c] by blast
  then show ?thesis
    by (simp add: vertexCount_position)
next
  case False
  then have "depthEffect T (Some sc) = Some sc"
    using assms(2) by (simp add: not_positive_iff depthEffect_skips)
  then show ?thesis
    using assms(1,3) by simp
qed

lemma scene_invariant_depthEffect:
  assumes "scene_invariant cur"
  shows "scene_invariant (depthEffect T cur)"
proof (cases cur)
  case None
  then show ?thesis by (simp add: scene_invariant_def)
next
  case (Some sc)
  show ?thesis
  proof (cases "scene_mesh sc = None \<or> scene_baseGeometry sc = None")
    case True
    then show ?thesis
      using assms Some by (simp add: depthEffect_no_mesh)
  next
    case False
    then obtain m base where mb: "scene_mesh sc = Some m" "scene_baseGeometry sc = Some base"
      by auto
    then have cnt: "vertexCount m = vertexCount base"
      using assms Some by (simp add: scene_invariant_def)
    have "map_option scene_baseGeometry (depthEffect T (Some sc)) = Some (Some base)"
      using mb(2) by simp
    then obtain sc' where sc': "depthEffect T (Some sc) = Some sc'"
      "scene_baseGeometry sc' = Some base"
      by (cases "depthEffect T (Some sc)") simp_all
    have "map_option vertexCount (scene_mesh sc') = Some (vertexCount base)"
      using vertexCount_depthEffect [OF mb cnt, of T] sc'(1) by simp
    then show ?thesis
      using Some sc' by (auto simp: scene_invariant_def)
  qed
qed

lemma scene_invariant_loadSTL:
  assumes "scene_invariant (sceneRef st)"
  shows "scene_invariant (sceneRef (loadSTL r st))"
proof (cases "sceneRef st")
  case None
  then show ?thesis
    by (simp add: loadSTL_def scene_invariant_def)
next
  case (Some sc)
  show ?thesis
  proof (cases r)
    case (Failed err)
    then show ?thesis
      using assms Some by (simp add: loadSTL_def)
  next
    case (Parsed parsed)
    then show ?thesis
      using Some by (simp add: loadSTL_def Let_def scene_invariant_def vertexCount_def clone_def)
  qed
qed

lemma scene_invariant_setParameters:
  assumes "scene_invariant (sceneRef st)"
  shows "scene_invariant (sceneRef (setParameters d st))"
  using assms by (simp add: sceneRef_setParameters scene_invariant_depthEffect)

lemma sceneRef_exportSTL [simp]: "sceneRef (exportSTL st) = sceneRef st"
  by (simp add: exportSTL_def split: option.splits)

lemma scene_invariant_step:
  assumes "scene_invariant (sceneRef st)"
  shows "scene_invariant (sceneRef (app_step st e))"
proof (cases e)
  case (Loaded r)
  then show ?thesis
    using assms by (simp add: scene_invariant_loadSTL)
next
  case (InputChange v)
  then show ?thesis
    using assms
    by (cases v) (simp_all add: inputOnChange_def updateParameter_def scene_invariant_setParameters)
next
  case (InputBlur v)
  then show ?thesis
    using assms
    by (cases v) (simp_all add: inputOnBlur_def updateParameter_def scene_invariant_setParameters)
next
  case (SliderChange v)
  then show ?thesis
    using assms
    by (simp add: sliderOnValueChange_def updateParameter_def scene_invariant_setParameters)
next
  case ResetClick
  then show ?thesis
    using assms by (simp add: resetOnClick_def scene_invariant_setParameters)
next
  case DownloadClick
  then show ?thesis
    using assms by (simp add: handleExportSTL_def)
qed

lemma scene_invariant_run: "scene_invariant (sceneRef (app_run evs))"
  unfolding app_run_def
proof (induction evs rule: rev_induct)
  case Nil
  then show ?case by (simp add: app_start_def scene_invariant_def)
next
  case (snoc e evs)
  then show ?case by (simp add: scene_invariant_step)
qed

lemma vertexCount_app_run:
  assumes "sceneRef (app_run evs) = Some sc"
  shows "map_option vertexCount (scene_mesh sc) = map_option vertexCount (scene_baseGeometry sc)"
  using scene_invariant_run [of evs] assms
  by (cases "scene_mesh sc"; cases "scene_baseGeometry sc") (simp_all add: scene_invariant_def)

text \<open>
  C8. The geometry a scale operation installs has as many vertices as the base geometry
  (so as many triangles), for every scale factor and target, and so has the copy that
  reset installs; scale and reset leave the base geometry as it is. Hence in every state
  either variant can reach, the mesh on display and the base geometry have the same
  number of vertices.
\<close>

theorem vertex_count_preserved:
  "(mesh st = Some m \<and> baseGeometry st = Some base \<longrightarrow>
      map_option vertexCount (mesh (bakeScaleAlongAxis a s st)) = Some (vertexCount base)
      \<and> map_option vertexCount (mesh (depthRangeInput T st)) = Some (vertexCount base)
      \<and> map_option vertexCount (mesh (resetScaleClick st)) = Some (vertexCount base))
   \<and> baseGeometry (depthRangeInput T st) = baseGeometry st
   \<and> baseGeometry (resetScaleClick st) = baseGeometry st
   \<and> map_option vertexCount (mesh (main_run evs)) =
       map_option vertexCount (baseGeometry (main_run evs))
   \<and> (scene_mesh sc = Some m' \<and> scene_baseGeometry sc = Some base'
        \<and> vertexCount m' = vertexCount base' \<longrightarrow>
        map_option vertexCount (Option.bind (depthEffect T (Some sc)) scene_mesh) =
          Some (vertexCount base'))
   \<and> map_option scene_baseGeometry (depthEffect T cur) = map_option scene_baseGeometry cur
   \<and> (sceneRef (app_run evs') = Some sc' \<longrightarrow>
        map_option vertexCount (scene_mesh sc') = map_option vertexCount (scene_baseGeometry sc'))"
  using vertexCount_bake [of st m base a s] vertexCount_depthRangeInput [of st m base T]
    vertexCount_reset [of st m base] baseGeometry_depthRangeInput [of T st]
    baseGeometry_resetScaleClick [of st] vertexCount_main_run [of evs]
    vertexCount_depthEffect [of sc m' base' T] depthEffect_base [of T cur]
    vertexCount_app_run [of evs' sc']
  by blast

theorem vertex_count_preserved_witness:
  "mesh (main_start\<lparr>mesh := Some flat, baseGeometry := Some triangle\<rparr>) = Some flat
   \<and> baseGeometry (main_start\<lparr>mesh := Some flat, baseGeometry := Some triangle\<rparr>) = Some triangle
   \<and> vertexCount triangle = 3
   \<and> map_option vertexCount (mesh (depthRangeInput 100
        (main_start\<lparr>mesh := Some flat, baseGeometry := Some triangle\<rparr>))) = Some 3
   \<and> map_option vertexCount (mesh (resetScaleClick
        (main_start\<lparr>mesh := Some flat, baseGeometry := Some triangle\<rparr>))) = Some 3
   \<and> vertexCount flat = vertexCount triangle
   \<and> map_option vertexCount (Option.bind
        (depthEffect 100 (Some \<lparr>scene_mesh = Some flat, scene_baseGeometry = Some triangle\<rparr>))
        scene_mesh) = Some 3
   \<and> sceneRef (app_run [Loaded (Parsed triangle), SliderChange 100]) =
        Some (the (sceneRef (app_run [Loaded (Parsed triangle), SliderChange 100])))
   \<and> map_option vertexCount
        (scene_mesh (the (sceneRef (app_run [Loaded (Parsed triangle), SliderChange 100])))) =
      map_option vertexCount
        (scene_baseGeometry (the (sceneRef (app_run [Loaded (Parsed triangle), SliderChange 100]))))"
proof -
  have cnt: "vertexCount triangle = 3" "vertexCount flat = 3"
    by (simp_all add: vertexCount_def triangle_def flat_def)
  have run: "sceneRef (app_run [Loaded (Parsed triangle), SliderChange 100]) =
      Some (the (sceneRef (app_run [Loaded (Parsed triangle), SliderChange 100])))"
    by (simp add: app_run_def app_start_def loadSTL_def sliderOnValueChange_def
        updateParameter_def sceneRef_setParameters Let_def depthEffect_def
        split: option.splits extent.splits)
  show ?thesis
    using vertex_count_preserved [where st = "main_start\<lparr>mesh := Some flat, baseGeometry := Some triangle\<rparr>"
        and m = flat and base = triangle and T = 100
        and sc = "\<lparr>scene_mesh = Some flat, scene_baseGeometry = Some triangle\<rparr>"
        and m' = flat and base' = triangle
        and evs' = "[Loaded (Parsed triangle), SliderChange 100]"
        and sc' = "the (sceneRef (app_run [Loaded (Parsed triangle), SliderChange 100]))"]
      cnt run
    by simp
qed

subsection \<open>Height scaling in the variant with depth and height\<close>

lemma box_min_le_max:
  assumes "setFromBufferAttribute ps = Box3 mn mx"
  shows "vy mn \<le> vy mx"
proof (cases "ps = []")
  case True
  then show ?thesis
    using assms by (simp add: setFromBufferAttribute_Nil)
next
  case False
  then have "mn = Vector3 (Min (vx ` set ps)) (Min (vy ` set ps)) (Min (vz ` set ps))"
    and "mx = Vector3 (Max (vx ` set ps)) (Max (vy ` set ps)) (Max (vz ` set ps))"
    using assms by (simp_all add: setFromBufferAttribute_Min_Max)
  moreover have "Min (vy ` set ps) \<le> Max (vy ` set ps)"
  proof -
    obtain p where "p \<in> set ps"
      using False by (cases ps) auto
    then have "Min (vy ` set ps) \<le> vy p" "vy p \<le> Max (vy ` set ps)"
      by simp_all
    then show ?thesis
      by linarith
  qed
  ultimately show ?thesis
    by simp
qed

lemma selectiveHeightScaling_shrink:
  assumes "heightScale \<le> 1"
  shows "position (selectiveHeightScaling heightScale g) = position g"
proof (cases "position g")
  case None
  then show ?thesis
    by (simp add: selectiveHeightScaling_def computeBoundingBox_def)
next
  case (Some ps)
  show ?thesis
  proof (cases "setFromBufferAttribute ps")
    case EmptyBox
    then show ?thesis
      using Some by (simp add: selectiveHeightScaling_def computeBoundingBox_def)
  next
    case (Box3 mn mx)
    then have le: "vy mn \<le> vy mx"
      by (rule box_min_le_max)
    have "0 \<le> vy mx - (vy mn + (vy mx - vy mn) * 0.55)"
      using le by (simp add: field_simps)
    then have "(heightScale - 1) * (vy mx - (vy mn + (vy mx - vy mn) * 0.55)) \<le> 0"
      using assms by (intro mult_nonpos_nonneg) simp_all
    then have "\<not> (heightScale - 1) * (vy mx - (vy mn + (vy mx - vy mn) * 0.55)) > 0"
      by simp
    then show ?thesis
      using Some Box3 by (simp add: selectiveHeightScaling_def computeBoundingBox_def Let_def)
  qed
qed

lemma map_vy_depth_scale:
  "map vy (map (Vector3_applyMatrix4 (makeScale 1 1 d)) ps) = map vy ps"
  by (simp add: Vector3_applyMatrix4_makeScale)

lemma depthHeightEffect_shrink:
  assumes "scene_mesh sc = Some m" "scene_baseGeometry sc = Some base"
    and "position base = Some ps"
    and "axisLength (setFromBufferAttribute ps) AxisZ = Finite currentDepth" "0 < currentDepth"
    and "axisLength (setFromBufferAttribute ps) AxisY = Finite currentHeight" "0 < currentHeight"
    and "targetHeight / currentHeight \<le> 1"
  shows "\<exists>g qs. depthHeightEffect targetDepth targetHeight (Some sc) =
      Some (sc\<lparr>scene_mesh := Some g\<rparr>) \<and> position g = Some qs \<and> map vy qs = map vy ps"
proof -
  let ?hs = "targetHeight / currentHeight"
  let ?ds = "targetDepth / currentDepth"
  let ?g1 = "if ?ds \<noteq> 1 then applyMatrix4 (makeScale 1 1 ?ds) (clone base) else clone base"
  let ?g2 = "if ?hs \<noteq> 1 then selectiveHeightScaling ?hs ?g1 else ?g1"
  let ?g3 = "computeBoundingBox (computeVertexNormals ?g2)"
  have eff: "depthHeightEffect targetDepth targetHeight (Some sc) =
      Some (sc\<lparr>scene_mesh := Some ?g3\<rparr>)"
    using assms(1-7) by (simp add: depthHeightEffect_def Let_def)
  have p1: "\<exists>qs. position ?g1 = Some qs \<and> map vy qs = map vy ps"
    using assms(3) by (simp add: Vector3_applyMatrix4_makeScale)
  have "position ?g2 = position ?g1"
    using assms(8) by (simp add: selectiveHeightScaling_shrink)
  then have "position ?g3 = position ?g1"
    by simp
  then show ?thesis
    using eff p1 by metis
qed

lemma computeAxisLengths_same_ys:
  assumes "position g = Some qs" "position base = Some ps" "map vy qs = map vy ps"
  shows "computeAxisLengths g AxisY = computeAxisLengths base AxisY"
proof (cases "ps = []")
  case True
  then have "qs = []"
    using assms(3) by simp
  then show ?thesis
    using True assms(1,2) by (simp add: computeAxisLengths_position)
next
  case False
  then have ne: "qs \<noteq> []"
    using assms(3) by auto
  have "vy ` set qs = vy ` set ps"
    using assms(3) by (metis set_map)
  then show ?thesis
    using assms(1,2) False ne by (simp add: computeAxisLengths_Max_Min)
qed

text \<open>
  C9. In the variant with depth and height, when the base extents along Z and Y are
  positive (so the effect installs a geometry) and the height scale, target height over
  base height, is at most 1, the Y coordinate of every vertex of the installed geometry
  is the one of the base geometry: the extrusion height is not positive, no vertex is
  moved up, and the extent along Y stays the base height whatever the target depth.
\<close>

theorem shrinking_height_keeps_ys:
  assumes "scene_mesh sc = Some m" "scene_baseGeometry sc = Some base"
    and "positive (computeAxisLengths base AxisZ)"
    and "computeAxisLengths base AxisY = Finite currentHeight" "0 < currentHeight"
    and "targetHeight / currentHeight \<le> 1"
  shows "meshYs (depthHeightEffect targetDepth targetHeight (Some sc)) =
           map_option (map vy) (position base)
       \<and> sceneLength (depthHeightEffect targetDepth targetHeight (Some sc)) AxisY =
           Some (Finite currentHeight)"
proof -
  obtain currentDepth where d: "computeAxisLengths base AxisZ = Finite currentDepth"
    "0 < currentDepth"
    using assms(3) by (cases "computeAxisLengths base AxisZ") simp_all
  obtain ps where ps: "position base = Some ps"
    using d(1) by (cases "position base") (simp_all add: computeAxisLengths_position)
  have z: "axisLength (setFromBufferAttribute ps) AxisZ = Finite currentDepth"
    using d(1) ps by (simp add: computeAxisLengths_position)
  have y: "axisLength (setFromBufferAttribute ps) AxisY = Finite currentHeight"
    using assms(4) ps by (simp add: computeAxisLengths_position)
  obtain g qs where g: "depthHeightEffect targetDepth targetHeight (Some sc) =
      Some (sc\<lparr>scene_mesh := Some g\<rparr>)" "position g = Some qs" "map vy qs = map vy ps"
    using depthHeightEffect_shrink [OF assms(1,2) ps z d(2) y assms(5,6)] by blast
  have "computeAxisLengths g AxisY = Finite currentHeight"
    using computeAxisLengths_same_ys [OF g(2) ps g(3)] assms(4) by simp
  then show ?thesis
    using g ps by (simp add: meshYs_def sceneLength_def)
qed

theorem shrinking_height_keeps_ys_witness:
  "positive (computeAxisLengths triangle AxisZ)
   \<and> computeAxisLengths triangle AxisY = Finite 5 \<and> (0::real) < 5 \<and> (4::real) / 5 \<le> 1
   \<and> meshYs (depthHeightEffect 100 4
        (Some \<lparr>scene_mesh = Some flat, scene_baseGeometry = Some triangle\<rparr>)) = Some [0, 0, 5]
   \<and> sceneLength (depthHeightEffect 100 4
        (Some \<lparr>scene_mesh = Some flat, scene_baseGeometry = Some triangle\<rparr>)) AxisY =
      Some (Finite 5)"
proof -
  have lenZ: "positive (computeAxisLengths triangle AxisZ)"
    by (simp add: computeAxisLengths_def computeBoundingBox_def clone_def triangle_def
        setFromBufferAttribute_def)
  have lenY: "computeAxisLengths triangle AxisY = Finite 5"
    by (simp add: computeAxisLengths_def computeBoundingBox_def clone_def triangle_def
        setFromBufferAttribute_def)
  have ys: "map_option (map vy) (position triangle) = Some [0, 0, 5]"
    by (simp add: triangle_def)
  show ?thesis
    using shrinking_height_keeps_ys [of "\<lparr>scene_mesh = Some flat, scene_baseGeometry = Some triangle\<rparr>"
        flat triangle 5 4 100] lenZ lenY ys
    by simp
qed

subsection \<open>Export\<close>

lemma exportCurrentMeshAsSTL_no_mesh:
  assumes "mesh st = None"
  shows "exportCurrentMeshAsSTL now st = st"
  using assms by (simp add: exportCurrentMeshAsSTL_def)

lemma exportSTL_no_mesh:
  assumes "Option.bind (sceneRef app) scene_mesh = None"
  shows "exportSTL app = app\<lparr>console := console app @ [''No mesh to export'']\<rparr>"
proof (cases "sceneRef app")
  case None
  then show ?thesis
    by (simp add: exportSTL_def)
next
  case (Some sc)
  then have "scene_mesh sc = None"
    using assms by simp
  then show ?thesis
    using Some by (simp add: exportSTL_def)
qed

text \<open>
  C10. Asking for an export while no mesh is loaded does nothing: in the single-page
  variant the state is returned as it is; in the React variant (no scene yet, or a scene
  without a mesh) the only change is the warning written to the console, so no download
  is created and the depth and the scene are as before.
\<close>

theorem export_without_mesh:
  "(mesh st = None \<longrightarrow> exportCurrentMeshAsSTL now st = st)
   \<and> (Option.bind (sceneRef app) scene_mesh = None \<longrightarrow>
        exportSTL app = app\<lparr>console := console app @ [''No mesh to export'']\<rparr>
        \<and> handleExportSTL app = exportSTL app
        \<and> downloads (exportSTL app) = downloads app
        \<and> sceneRef (exportSTL app) = sceneRef app
        \<and> depth (exportSTL app) = depth app)"
proof -
  have "downloads (exportSTL app) = downloads app \<and> sceneRef (exportSTL app) = sceneRef app
      \<and> depth (exportSTL app) = depth app"
    if "exportSTL app = app\<lparr>console := console app @ [''No mesh to export'']\<rparr>"
    using that by simp
  then show ?thesis
    using exportCurrentMeshAsSTL_no_mesh [of st now] exportSTL_no_mesh [of app]
    by (simp add: handleExportSTL_def)
qed

theorem export_without_mesh_witness:
  "mesh main_start = None
   \<and> exportCurrentMeshAsSTL 1700000000000 main_start = main_start
   \<and> downloads (main_run [ExportSTL 1700000000000]) = []
   \<and> Option.bind (sceneRef app_start) scene_mesh = None
   \<and> exportSTL app_start = app_start\<lparr>console := [''No mesh to export'']\<rparr>
   \<and> downloads (app_run [DownloadClick]) = []
   \<and> console (app_run [DownloadClick]) = [''No mesh to export'']"
proof -
  have m: "mesh main_start = None"
    by (simp add: main_start_def)
  have a: "Option.bind (sceneRef app_start) scene_mesh = None"
    by (simp add: app_start_def)
  have c: "console app_start = []" "downloads app_start = []" "downloads main_start = []"
    by (simp_all add: app_start_def main_start_def)
  show ?thesis
    using export_without_mesh [of main_start 1700000000000 app_start] m a c
    by (simp add: main_run_def app_run_def handleExportSTL_def)
qed

end
